theory Spec2Isabelle
  imports Complex_Main "HOL-Library.AList"
begin

section \<open>Data model\<close>

text \<open>
  The engine is the TypeScript of \<^verbatim>\<open>managers/newsKnowledgeManager.ts\<close> (class
  \<^verbatim>\<open>NewsKnowledgeManager\<close>) and of the service \<^verbatim>\<open>NewsMemoryService\<close>.
  Times are epoch milliseconds (\<^verbatim>\<open>Date.getTime()\<close>, \<^verbatim>\<open>Date.now()\<close>) and are
  integers. An optional property of a JavaScript object is an \<open>option\<close>: \<open>None\<close> is
  \<^verbatim>\<open>undefined\<close>.
\<close>

type_synonym UUID = string

text \<open>
  A \<^verbatim>\<open>Date\<close> object: its time value is a number of milliseconds, or \<^verbatim>\<open>NaN\<close>
  for an invalid date.
\<close>

datatype jsDate = InvalidDate | DateMs int

text \<open>
  The metadata of a stored item. \<open>md_publishedAt\<close> is \<open>Some p\<close> when the property
  holds the number \<open>p\<close>. It is \<open>None\<close> when the property is absent and also when it
  holds \<^verbatim>\<open>NaN\<close>: every comparison with \<^verbatim>\<open>NaN\<close> is false and \<^verbatim>\<open>NaN || 0\<close> is \<open>0\<close>,
  so the code below treats both alike. Property values of another type are not
  modelled.
\<close>

record metadata =
  md_title :: "string option"
  md_source :: "string option"
  md_url :: "string option"
  md_publishedAt :: "int option"
  md_type :: "string option"
  md_topics :: "string list option"
  md_isMain :: bool
  md_isShared :: bool

text \<open>\<^verbatim>\<open>RAGKnowledgeItem\<close>; \<open>similarity\<close> is the score a semantic query attaches.\<close>

record RAGKnowledgeItem =
  item_id :: UUID
  item_agentId :: UUID
  item_text :: string
  item_metadata :: "metadata option"
  item_createdAt :: int
  similarity :: "rat option"

record NewsItem =
  ni_title :: string
  ni_content :: string
  ni_source :: string
  ni_url :: "string option"
  ni_publishedAt :: "jsDate option"
  ni_topics :: "string list"

record NewsSearchOptions =
  query :: "string option"
  conversationContext :: "string option"
  limit :: "int option"
  fromDate :: "int option"
  toDate :: "int option"
  sources :: "string list option"
  topics :: "string list option"

record TopicConfig =
  tc_name :: string
  tc_interval :: int

text \<open>JavaScript truthiness of an optional string: defined and not empty.\<close>

definition truthy :: "string option \<Rightarrow> bool" where
  "truthy s = (case s of None \<Rightarrow> False | Some t \<Rightarrow> t \<noteq> [])"

text \<open>\<^verbatim>\<open>xs && xs.length > 0\<close> for an optional array.\<close>

definition nonEmpty :: "'a list option \<Rightarrow> bool" where
  "nonEmpty xs = (case xs of None \<Rightarrow> False | Some ys \<Rightarrow> ys \<noteq> [])"

section \<open>The complexity multiplier\<close>

text \<open>
  \<^verbatim>\<open>estimateFilterComplexity\<close>. \<^verbatim>\<open>daysBetween\<close> is a quotient of two numbers; it is
  a rational here.
\<close>

definition daysBetween :: "int \<Rightarrow> int \<Rightarrow> rat" where
  "daysBetween from to = of_int (to - from) / of_int (1000 * 60 * 60 * 24)"

definition estimateFilterComplexity :: "NewsSearchOptions \<Rightarrow> int" where
  "estimateFilterComplexity options =
     (let complexity = 1;
          complexity =
            (case (fromDate options, toDate options) of
               (Some from, Some to) \<Rightarrow>
                 (if daysBetween from to < 7 then complexity + 5
                  else if daysBetween from to < 30 then complexity + 4
                  else complexity + 3)
             | (Some from, None) \<Rightarrow> complexity + 2
             | (None, Some to) \<Rightarrow> complexity + 2
             | (None, None) \<Rightarrow> complexity);
          complexity = (if nonEmpty (topics options) then complexity + 1 else complexity);
          complexity = (if nonEmpty (sources options) then complexity + 1 else complexity)
      in complexity)"

text \<open>
  The multiplier as the specification words it: a base of 1 and one summand for each
  of its clauses. The three clauses on a full date range are read as the cascade the
  specification's own examples use (below 7 days; else below 30 days; else).
\<close>

definition bothBounds :: "NewsSearchOptions \<Rightarrow> bool" where
  "bothBounds options = (fromDate options \<noteq> None \<and> toDate options \<noteq> None)"

definition oneBound :: "NewsSearchOptions \<Rightarrow> bool" where
  "oneBound options = ((fromDate options = None) \<noteq> (toDate options = None))"

definition spanDays :: "NewsSearchOptions \<Rightarrow> rat" where
  "spanDays options = daysBetween (the (fromDate options)) (the (toDate options))"

definition specComplexity :: "NewsSearchOptions \<Rightarrow> int" where
  "specComplexity options =
     1
     + (if bothBounds options \<and> spanDays options < 7 then 5 else 0)
     + (if bothBounds options \<and> \<not> spanDays options < 7 \<and> spanDays options < 30 then 4 else 0)
     + (if bothBounds options \<and> \<not> spanDays options < 30 then 3 else 0)
     + (if oneBound options then 2 else 0)
     + (if nonEmpty (topics options) then 1 else 0)
     + (if nonEmpty (sources options) then 1 else 0)"

definition noOptions :: NewsSearchOptions where
  "noOptions = \<lparr>query = None, conversationContext = None, limit = None, fromDate = None,
     toDate = None, sources = None, topics = None\<rparr>"

definition dayMs :: int where
  "dayMs = 24 * 60 * 60 * 1000"

section \<open>Host functions and the knowledge store\<close>

text \<open>
  Built-in and library functions of the host that the engine calls: \<^verbatim>\<open>JSON.stringify\<close>
  (on the object \<^verbatim>\<open>generateCacheKey\<close> builds), \<^verbatim>\<open>Date.prototype.toISOString\<close>,
  \<^verbatim>\<open>stringToUuid\<close> of the agent framework, \<^verbatim>\<open>String.prototype.toLowerCase\<close>,
  \<^verbatim>\<open>new URL(u).hostname\<close> (\<open>None\<close>: the constructor throws) and \<^verbatim>\<open>new Date(s)\<close>.
  They are parameters of the model; every theorem holds for all of them.
\<close>

record cacheKeyObject =
  ck_query :: "string option"
  ck_fromDate :: "string option"
  ck_toDate :: "string option"
  ck_sources :: "string list option"
  ck_topics :: "string list option"

record jsHost =
  JSON_stringify :: "cacheKeyObject \<Rightarrow> string"
  toISOString :: "int \<Rightarrow> string"
  stringToUuid :: "string \<Rightarrow> UUID"
  toLowerCase :: "string \<Rightarrow> string"
  hostname :: "string \<Rightarrow> string option"
  newDate :: "string \<Rightarrow> jsDate"

datatype error = AdapterError | TypeError

text \<open>
  The parameters of \<^verbatim>\<open>RAGKnowledgeManager.getKnowledge\<close> the engine sets (the agent
  id is the same in every call and left out).
\<close>

record getKnowledgeParams =
  gk_query :: "string option"
  gk_limit :: int
  gk_conversationContext :: "string option"

text \<open>
  The knowledge store is the framework's \<^verbatim>\<open>RAGKnowledgeManager\<close>, an external
  collaborator: a state \<open>'s\<close> and four operations, each of which may raise. A read
  leaves the state as it is.
\<close>

record 's RAGKnowledgeManager =
  getKnowledge :: "'s \<Rightarrow> getKnowledgeParams \<Rightarrow> error + RAGKnowledgeItem list"
  listAllKnowledge :: "'s \<Rightarrow> error + RAGKnowledgeItem list"
  createKnowledge :: "'s \<Rightarrow> RAGKnowledgeItem \<Rightarrow> error + 's"
  removeKnowledge :: "'s \<Rightarrow> UUID \<Rightarrow> error + 's"

text \<open>The calls a function issues to the store, in order (a trace, not program state).\<close>

datatype storeCall =
  GetKnowledge getKnowledgeParams
  | ListAllKnowledge
  | CreateKnowledge RAGKnowledgeItem
  | RemoveKnowledge UUID

section \<open>Storing an item\<close>

definition getTime :: "jsDate \<Rightarrow> int option" where
  "getTime d = (case d of InvalidDate \<Rightarrow> None | DateMs t \<Rightarrow> Some t)"

text \<open>\<^verbatim>\<open>newsItem.url || `${newsItem.title}-${newsItem.source}`\<close>\<close>

definition idBase :: "NewsItem \<Rightarrow> string" where
  "idBase newsItem =
     (case ni_url newsItem of
        None \<Rightarrow> ni_title newsItem @ ''-'' @ ni_source newsItem
      | Some u \<Rightarrow> if u = [] then ni_title newsItem @ ''-'' @ ni_source newsItem else u)"

definition knowledgeItemOf ::
  "jsHost \<Rightarrow> UUID \<Rightarrow> int \<Rightarrow> NewsItem \<Rightarrow> string option \<Rightarrow> jsDate \<Rightarrow> RAGKnowledgeItem" where
  "knowledgeItemOf h agent now newsItem type d =
     \<lparr>item_id = stringToUuid h (idBase newsItem),
      item_agentId = agent,
      item_text = ni_title newsItem @ [CHR 0x0A, CHR 0x0A] @ ni_content newsItem,
      item_metadata = Some
        \<lparr>md_title = Some (ni_title newsItem),
         md_source = Some (ni_source newsItem),
         md_url = ni_url newsItem,
         md_publishedAt = getTime d,
         md_type = Some (if truthy type then the type else ''news''),
         md_topics = Some (ni_topics newsItem),
         md_isMain = True,
         md_isShared = False\<rparr>,
      item_createdAt = now,
      similarity = None\<rparr>"

text \<open>
  \<^verbatim>\<open>storeNewsItem\<close>. \<^verbatim>\<open>newsItem.publishedAt.getTime()\<close> throws a \<^verbatim>\<open>TypeError\<close> when
  \<^verbatim>\<open>publishedAt\<close> is \<^verbatim>\<open>null\<close>; the \<^verbatim>\<open>catch\<close> logs and returns \<^verbatim>\<open>null\<close>, as it does
  when \<^verbatim>\<open>createKnowledge\<close> raises. The result is the item returned, the store after the
  call and the store calls issued.
\<close>

definition storeNewsItem ::
  "jsHost \<Rightarrow> 's RAGKnowledgeManager \<Rightarrow> UUID \<Rightarrow> 's \<Rightarrow> int \<Rightarrow> NewsItem \<Rightarrow> string option
     \<Rightarrow> RAGKnowledgeItem option \<times> 's \<times> storeCall list" where
  "storeNewsItem h m agent st now newsItem type =
     (case ni_publishedAt newsItem of
        None \<Rightarrow> (None, st, [])
      | Some d \<Rightarrow>
          (let knowledgeItem = knowledgeItemOf h agent now newsItem type d in
           case createKnowledge m st knowledgeItem of
             Inl e \<Rightarrow> (None, st, [CreateKnowledge knowledgeItem])
           | Inr st' \<Rightarrow> (Some knowledgeItem, st', [CreateKnowledge knowledgeItem])))"

section \<open>Duplicate check\<close>

text \<open>\<^verbatim>\<open>item.content.metadata || {}\<close>\<close>

definition emptyMetadata :: metadata where
  "emptyMetadata = \<lparr>md_title = None, md_source = None, md_url = None, md_publishedAt = None,
     md_type = None, md_topics = None, md_isMain = False, md_isShared = False\<rparr>"

definition metadataOf :: "RAGKnowledgeItem \<Rightarrow> metadata" where
  "metadataOf item = (case item_metadata item of None \<Rightarrow> emptyMetadata | Some md \<Rightarrow> md)"

text \<open>
  \<^verbatim>\<open>Array.prototype.slice(0, end)\<close>: a negative \<^verbatim>\<open>end\<close> counts from the end of the
  array.
\<close>

definition slice0 :: "int \<Rightarrow> 'a list \<Rightarrow> 'a list" where
  "slice0 e xs = (if e < 0 then take (nat (int (length xs) + e)) xs else take (nat e) xs)"

text \<open>
  \<^verbatim>\<open>searchNewsByMetadata\<close>, for a metadata key that holds a string (the engine calls it
  with \<^verbatim>\<open>"url"\<close>, which is \<open>md_url\<close>). An error of the store is caught here and gives
  the empty list.
\<close>

definition searchNewsByMetadata ::
  "'s RAGKnowledgeManager \<Rightarrow> 's \<Rightarrow> (metadata \<Rightarrow> string option) \<Rightarrow> string \<Rightarrow> int
     \<Rightarrow> RAGKnowledgeItem list \<times> storeCall list" where
  "searchNewsByMetadata m st key val count =
     (let params = \<lparr>gk_query = None, gk_limit = count * 10, gk_conversationContext = None\<rparr> in
      case getKnowledge m st params of
        Inl e \<Rightarrow> ([], [GetKnowledge params])
      | Inr results \<Rightarrow>
          (slice0 count (filter (\<lambda>item. key (metadataOf item) = Some val) results),
           [GetKnowledge params]))"

text \<open>
  The test of \<^verbatim>\<open>results.some\<close> in \<^verbatim>\<open>checkForDuplicate\<close>:
  \<^verbatim>\<open>itemTitle.toLowerCase() === newsItem.title.toLowerCase() ||
      (item.similarity && item.similarity > 0.95)\<close>
  with \<^verbatim>\<open>itemTitle = metadata.title || ""\<close>.
\<close>

definition verySimilar :: "jsHost \<Rightarrow> NewsItem \<Rightarrow> RAGKnowledgeItem \<Rightarrow> bool" where
  "verySimilar h newsItem item =
     (let itemTitle = (case md_title (metadataOf item) of None \<Rightarrow> [] | Some t \<Rightarrow> t) in
      toLowerCase h itemTitle = toLowerCase h (ni_title newsItem)
      \<or> (case similarity item of None \<Rightarrow> False | Some s \<Rightarrow> s > 95 / 100))"

definition titleParams :: "NewsItem \<Rightarrow> getKnowledgeParams" where
  "titleParams newsItem =
     \<lparr>gk_query = Some (ni_title newsItem), gk_limit = 5, gk_conversationContext = None\<rparr>"

definition checkByTitle ::
  "jsHost \<Rightarrow> 's RAGKnowledgeManager \<Rightarrow> 's \<Rightarrow> NewsItem \<Rightarrow> bool \<times> storeCall list" where
  "checkByTitle h m st newsItem =
     (case getKnowledge m st (titleParams newsItem) of
        Inl e \<Rightarrow> (False, [GetKnowledge (titleParams newsItem)])
      | Inr results \<Rightarrow>
          (list_ex (verySimilar h newsItem) results, [GetKnowledge (titleParams newsItem)]))"

definition checkForDuplicate ::
  "jsHost \<Rightarrow> 's RAGKnowledgeManager \<Rightarrow> 's \<Rightarrow> NewsItem \<Rightarrow> bool \<times> storeCall list" where
  "checkForDuplicate h m st newsItem =
     (if truthy (ni_url newsItem) then
        (let (results, calls) = searchNewsByMetadata m st md_url (the (ni_url newsItem)) 10 in
         if length results > 0 then (True, calls)
         else (let (dup, calls') = checkByTitle h m st newsItem in (dup, calls @ calls')))
      else checkByTitle h m st newsItem)"

section \<open>The query cache\<close>

record cacheEntry =
  ce_timestamp :: int
  ce_results :: "RAGKnowledgeItem list"

type_synonym newsCache = "string \<rightharpoonup> cacheEntry"

definition CACHE_TTL :: int where
  "CACHE_TTL = 5 * 60 * 1000"

definition generateCacheKey :: "jsHost \<Rightarrow> NewsSearchOptions \<Rightarrow> string" where
  "generateCacheKey h options =
     JSON_stringify h
       \<lparr>ck_query = query options,
        ck_fromDate = map_option (toISOString h) (fromDate options),
        ck_toDate = map_option (toISOString h) (toDate options),
        ck_sources = sources options,
        ck_topics = topics options\<rparr>"

text \<open>\<open>now\<close> is the value of \<^verbatim>\<open>Date.now()\<close> at the call.\<close>

definition getCachedNews ::
  "jsHost \<Rightarrow> newsCache \<Rightarrow> int \<Rightarrow> NewsSearchOptions \<Rightarrow> RAGKnowledgeItem list option" where
  "getCachedNews h cache now options =
     (case cache (generateCacheKey h options) of
        None \<Rightarrow> None
      | Some cachedItem \<Rightarrow>
          if now - ce_timestamp cachedItem < CACHE_TTL then Some (ce_results cachedItem)
          else None)"

definition cleanExpiredCache :: "newsCache \<Rightarrow> int \<Rightarrow> newsCache" where
  "cleanExpiredCache cache now =
     (\<lambda>key. case cache key of
        None \<Rightarrow> None
      | Some item \<Rightarrow> if now - ce_timestamp item > CACHE_TTL then None else Some item)"

text \<open>
  \<^verbatim>\<open>setCachedNews\<close> reads the clock for the timestamp and again in
  \<^verbatim>\<open>cleanExpiredCache\<close>; it runs without suspending, and both reads are \<open>now\<close> here.
\<close>

definition setCachedNews ::
  "jsHost \<Rightarrow> newsCache \<Rightarrow> int \<Rightarrow> NewsSearchOptions \<Rightarrow> RAGKnowledgeItem list \<Rightarrow> newsCache" where
  "setCachedNews h cache now options results =
     cleanExpiredCache
       (cache(generateCacheKey h options \<mapsto> \<lparr>ce_timestamp = now, ce_results = results\<rparr>)) now"


section \<open>Filtering, sorting and searching\<close>

text \<open>
  The predicate of \<^verbatim>\<open>filterNewsResults\<close>, with the code's early returns in their
  order. The date bounds are tested only under \<^verbatim>\<open>typeof publishedAt === 'number'\<close>.
\<close>

definition keepNews :: "NewsSearchOptions \<Rightarrow> RAGKnowledgeItem \<Rightarrow> bool" where
  "keepNews options item =
     (let metadata = metadataOf item; publishedAt = md_publishedAt metadata in
      if md_type metadata \<noteq> Some ''news'' then False
      else if (case (fromDate options, publishedAt) of
                 (Some from, Some p) \<Rightarrow> p < from | _ \<Rightarrow> False) then False
      else if (case (toDate options, publishedAt) of
                 (Some to, Some p) \<Rightarrow> p > to | _ \<Rightarrow> False) then False
      else if (case sources options of
                 None \<Rightarrow> False
               | Some ss \<Rightarrow> ss \<noteq> [] \<and>
                   (case md_source metadata of
                      None \<Rightarrow> True
                    | Some s \<Rightarrow> s = [] \<or> s \<notin> set ss)) then False
      else if (case topics options of
                 None \<Rightarrow> False
               | Some ts \<Rightarrow> ts \<noteq> [] \<and>
                   (let tps = (case md_topics metadata of None \<Rightarrow> [] | Some x \<Rightarrow> x) in
                    tps = [] \<or> \<not> list_ex (\<lambda>topic. topic \<in> set ts) tps)) then False
      else True)"

definition filterNewsResults ::
  "RAGKnowledgeItem list \<Rightarrow> NewsSearchOptions \<Rightarrow> RAGKnowledgeItem list" where
  "filterNewsResults results options = filter (keepNews options) results"

text \<open>\<^verbatim>\<open>item.content.metadata?.publishedAt as number || 0\<close>\<close>

definition sortDate :: "RAGKnowledgeItem \<Rightarrow> int" where
  "sortDate item =
     (case item_metadata item of
        None \<Rightarrow> 0
      | Some md \<Rightarrow> (case md_publishedAt md of None \<Rightarrow> 0 | Some p \<Rightarrow> p))"

text \<open>
  \<^verbatim>\<open>.sort((a, b) => dateB - dateA)\<close>: \<^verbatim>\<open>Array.prototype.sort\<close> is stable, so the
  result is the stable sort by descending date.
\<close>

definition sortNewestFirst :: "RAGKnowledgeItem list \<Rightarrow> RAGKnowledgeItem list" where
  "sortNewestFirst items = sort_key (\<lambda>item. - sortDate item) items"

text \<open>\<^verbatim>\<open>options.limit || 10\<close>\<close>

definition desiredCountOf :: "NewsSearchOptions \<Rightarrow> int" where
  "desiredCountOf options =
     (case limit options of None \<Rightarrow> 10 | Some l \<Rightarrow> if l = 0 then 10 else l)"

definition queryParams :: "NewsSearchOptions \<Rightarrow> int \<Rightarrow> getKnowledgeParams" where
  "queryParams options n =
     \<lparr>gk_query = Some (case query options of None \<Rightarrow> [] | Some q \<Rightarrow> q),
      gk_limit = n,
      gk_conversationContext = conversationContext options\<rparr>"

text \<open>
  \<^verbatim>\<open>searchNews\<close>. \<open>now\<close> is the clock at the cache lookup and \<open>later\<close> the clock when
  the results are cached. Any error of the store reaches the outer \<^verbatim>\<open>catch\<close>, which
  returns the empty list and caches nothing. The result is the list returned, the
  cache after the call and the store calls issued.
\<close>

definition searchNews ::
  "jsHost \<Rightarrow> 's RAGKnowledgeManager \<Rightarrow> 's \<Rightarrow> newsCache \<Rightarrow> int \<Rightarrow> int \<Rightarrow> NewsSearchOptions
     \<Rightarrow> RAGKnowledgeItem list \<times> newsCache \<times> storeCall list" where
  "searchNews h m st cache now later options =
     (case getCachedNews h cache now options of
        Some cachedNews \<Rightarrow> (cachedNews, cache, [])
      | None \<Rightarrow>
          (let desiredCount = desiredCountOf options in
           if \<not> truthy (query options) \<and> \<not> truthy (conversationContext options) then
             (case listAllKnowledge m st of
                Inl e \<Rightarrow> ([], cache, [ListAllKnowledge])
              | Inr allItems \<Rightarrow>
                  (let results = filterNewsResults allItems options;
                       r = slice0 desiredCount (sortNewestFirst results)
                   in (r, setCachedNews h cache later options r, [ListAllKnowledge])))
           else
             (let complexity = estimateFilterComplexity options;
                  adjustedCount = desiredCount * complexity;
                  first = queryParams options adjustedCount;
                  second = queryParams options (adjustedCount * 10)
              in
              case getKnowledge m st first of
                Inl e \<Rightarrow> ([], cache, [GetKnowledge first])
              | Inr result \<Rightarrow>
                  if length result = 0 then ([], cache, [GetKnowledge first])
                  else
                    (let matchingResults = filterNewsResults result options in
                     if int (length matchingResults) < desiredCount then
                       (case getKnowledge m st second of
                          Inl e \<Rightarrow> ([], cache, [GetKnowledge first, GetKnowledge second])
                        | Inr largerBatch \<Rightarrow>
                            (let largerResults = filterNewsResults largerBatch options;
                                 r = slice0 desiredCount
                                       (sortNewestFirst (matchingResults @ largerResults))
                             in (r, setCachedNews h cache later options r,
                                 [GetKnowledge first, GetKnowledge second])))
                     else
                       (let r = slice0 desiredCount (sortNewestFirst matchingResults)
                        in (r, setCachedNews h cache later options r,
                            [GetKnowledge first]))))))"

section \<open>Retention purge\<close>

text \<open>
  The loop of \<^verbatim>\<open>purgeOldNews\<close> over the expired items: the first
  \<^verbatim>\<open>removeKnowledge\<close> that raises ends it. \<open>deletedCount\<close> is the counter.
\<close>

fun removeEach ::
  "'s RAGKnowledgeManager \<Rightarrow> 's \<Rightarrow> RAGKnowledgeItem list \<Rightarrow> int
     \<Rightarrow> (error + int) \<times> 's \<times> storeCall list" where
  "removeEach m st [] deletedCount = (Inr deletedCount, st, [])"
| "removeEach m st (item # rest) deletedCount =
     (case removeKnowledge m st (item_id item) of
        Inl e \<Rightarrow> (Inl e, st, [RemoveKnowledge (item_id item)])
      | Inr st' \<Rightarrow>
          (let (r, st'', calls) = removeEach m st' rest (deletedCount + 1)
           in (r, st'', RemoveKnowledge (item_id item) # calls)))"

definition expired :: "int \<Rightarrow> RAGKnowledgeItem \<Rightarrow> bool" where
  "expired cutoffTime item =
     (let metadata = metadataOf item in
      md_type metadata = Some ''news''
      \<and> (case md_publishedAt metadata of None \<Rightarrow> False | Some p \<Rightarrow> p < cutoffTime))"

definition purgeParams :: getKnowledgeParams where
  "purgeParams = \<lparr>gk_query = None, gk_limit = 1000, gk_conversationContext = None\<rparr>"

text \<open>
  \<^verbatim>\<open>NewsKnowledgeManager.purgeOldNews\<close>. The value returned to the caller is an
  \<open>error + int\<close> so that an error leaving the function would show as \<open>Inl\<close>; the
  \<^verbatim>\<open>catch\<close> of the code turns every error into the count 0.
\<close>

definition purgeOldNews ::
  "'s RAGKnowledgeManager \<Rightarrow> 's \<Rightarrow> int \<Rightarrow> int \<Rightarrow> (error + int) \<times> 's \<times> storeCall list" where
  "purgeOldNews m st now retentionDays =
     (let cutoffTime = now - retentionDays * 24 * 60 * 60 * 1000 in
      case getKnowledge m st purgeParams of
        Inl e \<Rightarrow> (Inr 0, st, [GetKnowledge purgeParams])
      | Inr allItems \<Rightarrow>
          (let expiredItems = filter (expired cutoffTime) allItems;
               (r, st', calls) = removeEach m st expiredItems 0
           in case r of
                Inl e \<Rightarrow> (Inr 0, st', GetKnowledge purgeParams # calls)
              | Inr deletedCount \<Rightarrow> (Inr deletedCount, st', GetKnowledge purgeParams # calls)))"

definition DEFAULT_RETENTION_DAYS :: int where
  "DEFAULT_RETENTION_DAYS = 30"

text \<open>
  \<^verbatim>\<open>NewsMemoryService.purgeOldNews\<close>, the caller of the function above:
  \<^verbatim>\<open>config.NEWS_RETENTION_DAYS || DEFAULT_RETENTION_DAYS\<close>, then the purge, in a
  \<^verbatim>\<open>try\<close> whose \<^verbatim>\<open>catch\<close> returns 0. \<open>configured\<close> is the validated setting.
\<close>

definition servicePurgeOldNews ::
  "'s RAGKnowledgeManager \<Rightarrow> 's \<Rightarrow> int \<Rightarrow> int \<Rightarrow> (error + int) \<times> 's \<times> storeCall list" where
  "servicePurgeOldNews m st now configured =
     (let retentionDays = (if configured = 0 then DEFAULT_RETENTION_DAYS else configured);
          (r, st', calls) = purgeOldNews m st now retentionDays
      in case r of
           Inl e \<Rightarrow> (Inr 0, st', calls)
         | Inr purgedCount \<Rightarrow> (Inr purgedCount, st', calls))"

section \<open>The ingestion service\<close>

text \<open>
  \<^verbatim>\<open>NewsMemoryService\<close>. A result of the search provider (\<^verbatim>\<open>SearchResult\<close>):
\<close>

record SearchResult =
  sr_title :: string
  sr_url :: "string option"
  sr_content :: string
  sr_rawContent :: "string option"
  sr_publishedDate :: "string option"
  sr_source :: "string option"

text \<open>
  The eight regular expressions of \<^verbatim>\<open>datePatterns\<close>, in their order: month name, day
  and year; day, month name and year; \<^verbatim>\<open>YYYY-MM-DD\<close>; \<^verbatim>\<open>MM/DD/YYYY\<close>; \<^verbatim>\<open>N hours ago\<close>;
  \<^verbatim>\<open>N days ago\<close>; \<^verbatim>\<open>yesterday\<close>; \<^verbatim>\<open>today\<close>.
\<close>

datatype datePattern =
  MonthDayYear | DayMonthYear | IsoDate | SlashDate | HoursAgo | DaysAgo | Yesterday | Today

definition datePatterns :: "datePattern list" where
  "datePatterns =
     [MonthDayYear, DayMonthYear, IsoDate, SlashDate, HoursAgo, DaysAgo, Yesterday, Today]"

text \<open>
  The regular-expression engine and the local-time arithmetic of \<^verbatim>\<open>Date\<close> are host
  facilities: \<open>matchGroup p content\<close> is the first group of \<^verbatim>\<open>content.match(p)\<close>
  (\<open>None\<close>: no match), the four tests are \<^verbatim>\<open>/hours\s+ago/i.test\<close> and its siblings,
  \<open>parseCount\<close> is \<^verbatim>\<open>parseInt(dateText.match(/\d+/)[0])\<close> (\<open>None\<close>: no digits, the index
  throws), \<open>hoursBefore now n\<close> and \<open>daysBefore now n\<close> are the time values after
  \<^verbatim>\<open>setHours(getHours() - n)\<close> and \<^verbatim>\<open>setDate(getDate() - n)\<close> on a date of value \<open>now\<close>.
\<close>

record dateHost =
  matchGroup :: "datePattern \<Rightarrow> string \<Rightarrow> string option"
  isHoursAgo :: "string \<Rightarrow> bool"
  isDaysAgo :: "string \<Rightarrow> bool"
  isYesterday :: "string \<Rightarrow> bool"
  isToday :: "string \<Rightarrow> bool"
  parseCount :: "string \<Rightarrow> int option"
  hoursBefore :: "int \<Rightarrow> int \<Rightarrow> int"
  daysBefore :: "int \<Rightarrow> int \<Rightarrow> int"

text \<open>
  The loop of \<^verbatim>\<open>extractDateFromContent\<close> over the patterns. \<open>Inr None\<close> is the
  \<^verbatim>\<open>null\<close> it returns when no pattern gives a date.
\<close>

fun extractWith ::
  "jsHost \<Rightarrow> dateHost \<Rightarrow> int \<Rightarrow> datePattern list \<Rightarrow> string \<Rightarrow> error + jsDate option" where
  "extractWith h d now [] content = Inr None"
| "extractWith h d now (pattern # rest) content =
     (case matchGroup d pattern content of
        None \<Rightarrow> extractWith h d now rest content
      | Some dateText \<Rightarrow>
          if dateText = [] then extractWith h d now rest content
          else if isHoursAgo d dateText then
            (case parseCount d dateText of
               None \<Rightarrow> Inl TypeError
             | Some hours \<Rightarrow> Inr (Some (DateMs (hoursBefore d now hours))))
          else if isDaysAgo d dateText then
            (case parseCount d dateText of
               None \<Rightarrow> Inl TypeError
             | Some days \<Rightarrow> Inr (Some (DateMs (daysBefore d now days))))
          else if isYesterday d dateText then Inr (Some (DateMs (daysBefore d now 1)))
          else if isToday d dateText then Inr (Some (DateMs now))
          else
            (case newDate h dateText of
               InvalidDate \<Rightarrow> extractWith h d now rest content
             | DateMs t \<Rightarrow> Inr (Some (DateMs t))))"

definition extractDateFromContent ::
  "jsHost \<Rightarrow> dateHost \<Rightarrow> int \<Rightarrow> string \<Rightarrow> error + jsDate option" where
  "extractDateFromContent h d now content = extractWith h d now datePatterns content"

text \<open>
  The block of \<^verbatim>\<open>fetchNewsForTopic\<close> that sets \<^verbatim>\<open>extractedDate\<close>. The fallbacks to the
  visible content and to the current time stand inside \<^verbatim>\<open>if (result.rawContent)\<close>;
  without raw content the variable keeps its initial \<^verbatim>\<open>null\<close>. An error of the
  extraction is caught and gives the current time.
\<close>

definition extractedDateOf :: "jsHost \<Rightarrow> dateHost \<Rightarrow> int \<Rightarrow> SearchResult \<Rightarrow> jsDate option" where
  "extractedDateOf h d now result =
     (if \<not> truthy (sr_publishedDate result) then
        (if truthy (sr_rawContent result) then
           (case extractDateFromContent h d now (the (sr_rawContent result)) of
              Inl e \<Rightarrow> Some (DateMs now)
            | Inr (Some date) \<Rightarrow> Some date
            | Inr None \<Rightarrow>
                (case extractDateFromContent h d now (sr_content result) of
                   Inl e \<Rightarrow> Some (DateMs now)
                 | Inr (Some date) \<Rightarrow> Some date
                 | Inr None \<Rightarrow> Some (DateMs now)))
         else None)
      else Some (newDate h (the (sr_publishedDate result))))"

text \<open>
  \<^verbatim>\<open>result.source || (result.url ? new URL(result.url).hostname : "unknown")\<close>; the
  \<^verbatim>\<open>URL\<close> constructor may throw.
\<close>

definition sourceOf :: "jsHost \<Rightarrow> SearchResult \<Rightarrow> error + string" where
  "sourceOf h result =
     (if truthy (sr_source result) then Inr (the (sr_source result))
      else if truthy (sr_url result) then
        (case hostname h (the (sr_url result)) of None \<Rightarrow> Inl TypeError | Some n \<Rightarrow> Inr n)
      else Inr ''unknown'')"

text \<open>
  The loop of \<^verbatim>\<open>fetchNewsForTopic\<close> over the provider's results; \<open>storedItems\<close> is the
  array it fills. An error that is not caught inside the loop leaves it (\<open>Inl\<close>), with
  the store as the earlier iterations left it.
\<close>

fun processResults ::
  "jsHost \<Rightarrow> dateHost \<Rightarrow> 's RAGKnowledgeManager \<Rightarrow> UUID \<Rightarrow> int \<Rightarrow> string \<Rightarrow> 's
     \<Rightarrow> SearchResult list \<Rightarrow> RAGKnowledgeItem list
     \<Rightarrow> (error + RAGKnowledgeItem list) \<times> 's \<times> storeCall list" where
  "processResults h d m agent now topic st [] storedItems = (Inr storedItems, st, [])"
| "processResults h d m agent now topic st (result # rest) storedItems =
     (if sr_title result = [] \<or> sr_content result = [] then
        processResults h d m agent now topic st rest storedItems
      else
        (let extractedDate = extractedDateOf h d now result in
         case sourceOf h result of
           Inl e \<Rightarrow> (Inl e, st, [])
         | Inr src \<Rightarrow>
             (let newsItem =
                    \<lparr>ni_title = sr_title result, ni_content = sr_content result,
                     ni_source = src, ni_url = sr_url result,
                     ni_publishedAt = extractedDate, ni_topics = [topic]\<rparr>;
                  (isDuplicate, calls1) = checkForDuplicate h m st newsItem
              in
              if isDuplicate then
                (let (r, st', calls) = processResults h d m agent now topic st rest storedItems
                 in (r, st', calls1 @ calls))
              else
                (let (storedItem, st1, calls2) = storeNewsItem h m agent st now newsItem None;
                     storedItems' =
                       (case storedItem of
                          None \<Rightarrow> storedItems
                        | Some item \<Rightarrow> storedItems @ [item]);
                     (r, st', calls) = processResults h d m agent now topic st1 rest storedItems'
                 in (r, st', calls1 @ calls2 @ calls)))))"

text \<open>
  \<^verbatim>\<open>fetchNewsForTopic\<close>. \<open>webSearch\<close> is \<^verbatim>\<open>webSearchService.search\<close> with the options
  \<^verbatim>\<open>{type: "news", limit: 5}\<close>: it raises, or returns a response whose \<^verbatim>\<open>results\<close> is
  an array (\<open>Some\<close>) or not. An error is logged and thrown again. The clock reads
  \<open>now\<close> throughout.
\<close>

definition fetchNewsForTopic ::
  "jsHost \<Rightarrow> dateHost \<Rightarrow> 's RAGKnowledgeManager \<Rightarrow> (string \<Rightarrow> error + SearchResult list option)
     \<Rightarrow> UUID \<Rightarrow> int \<Rightarrow> 's \<Rightarrow> string
     \<Rightarrow> (error + RAGKnowledgeItem list) \<times> 's \<times> storeCall list" where
  "fetchNewsForTopic h d m webSearch agent now st topic =
     (let searchQuery = ''latest news about '' @ topic in
      case webSearch searchQuery of
        Inl e \<Rightarrow> (Inl e, st, [])
      | Inr None \<Rightarrow> (Inr [], st, [])
      | Inr (Some results) \<Rightarrow> processResults h d m agent now topic st results [])"

section \<open>The scheduler\<close>

text \<open>
  The interval timers of the runtime: \<^verbatim>\<open>setInterval\<close> adds a timer under a fresh id
  and returns the id, \<^verbatim>\<open>clearInterval\<close> removes the timer of an id. A timer in the table
  fires its task every \<open>tm_ms\<close> milliseconds for as long as it is in the table.
\<close>

datatype timerTask = FetchTopic string | PurgeOldNews

record timer =
  tm_id :: nat
  tm_task :: timerTask
  tm_ms :: int

text \<open>
  The fields of the service that the scheduler uses, together with the runtime's timer
  table. \<^verbatim>\<open>fetchIntervals\<close> is a \<^verbatim>\<open>Map\<close> from topic name to timer id, in insertion
  order.
\<close>

record service =
  fetchIntervals :: "(string \<times> nat) list"
  svc_topics :: "TopicConfig list"
  initialized :: bool
  timers :: "timer list"
  nextTimerId :: nat

definition setInterval :: "timerTask \<Rightarrow> int \<Rightarrow> service \<Rightarrow> nat \<times> service" where
  "setInterval task ms s =
     (nextTimerId s,
      s\<lparr>timers := timers s @ [\<lparr>tm_id = nextTimerId s, tm_task = task, tm_ms = ms\<rparr>],
        nextTimerId := nextTimerId s + 1\<rparr>)"

definition clearInterval :: "nat \<Rightarrow> service \<Rightarrow> service" where
  "clearInterval i s = s\<lparr>timers := filter (\<lambda>t. tm_id t \<noteq> i) (timers s)\<rparr>"

definition stopFetchIntervals :: "service \<Rightarrow> service" where
  "stopFetchIntervals s =
     (fold (\<lambda>entry s'. clearInterval (snd entry) s') (fetchIntervals s) s)
       \<lparr>fetchIntervals := []\<rparr>"

text \<open>The body of the loop of \<^verbatim>\<open>startFetchIntervals\<close>, for one topic.\<close>

definition scheduleTopic :: "TopicConfig \<Rightarrow> service \<Rightarrow> service" where
  "scheduleTopic topic s =
     (let (intervalId, s') =
            setInterval (FetchTopic (tc_name topic)) (tc_interval topic * 60 * 1000) s
      in s'\<lparr>fetchIntervals := AList.update (tc_name topic) intervalId (fetchIntervals s')\<rparr>)"

definition startFetchIntervals :: "service \<Rightarrow> service" where
  "startFetchIntervals s = fold scheduleTopic (svc_topics s) (stopFetchIntervals s)"

text \<open>\<^verbatim>\<open>scheduleNewsCleanup\<close>: the id \<^verbatim>\<open>setInterval\<close> returns is not kept.\<close>

definition scheduleNewsCleanup :: "service \<Rightarrow> service" where
  "scheduleNewsCleanup s = snd (setInterval PurgeOldNews (24 * 60 * 60 * 1000) s)"

definition stop :: "service \<Rightarrow> service" where
  "stop s = stopFetchIntervals s"

definition DEFAULT_FETCH_INTERVAL :: int where
  "DEFAULT_FETCH_INTERVAL = 60"

definition DEFAULT_TOPICS :: "string list" where
  "DEFAULT_TOPICS = [''world news'', ''technology'', ''science'']"

text \<open>
  \<^verbatim>\<open>initializeTopics\<close>, from the validated settings \<^verbatim>\<open>NEWS_TOPICS\<close> and
  \<^verbatim>\<open>NEWS_FETCH_INTERVAL_MINUTES\<close>.
\<close>

definition initializeTopics :: "string list \<Rightarrow> int \<Rightarrow> service \<Rightarrow> service" where
  "initializeTopics newsTopics fetchInterval s =
     (let topicNames = (if length newsTopics > 0 then newsTopics else DEFAULT_TOPICS);
          defaultInterval = (if fetchInterval = 0 then DEFAULT_FETCH_INTERVAL else fetchInterval)
      in s\<lparr>svc_topics := map (\<lambda>name. \<lparr>tc_name = name, tc_interval = defaultInterval\<rparr>)
                            topicNames\<rparr>)"

text \<open>
  \<^verbatim>\<open>initialize\<close>, for a web search service that initialises: the topics, the fetch
  timers, the daily purge timer, then the first fetch, which installs and cancels no
  timer and raises nothing.
\<close>

definition initialize :: "string list \<Rightarrow> int \<Rightarrow> service \<Rightarrow> service" where
  "initialize newsTopics fetchInterval s =
     (if initialized s then s
      else (scheduleNewsCleanup
              (startFetchIntervals (initializeTopics newsTopics fetchInterval s)))
             \<lparr>initialized := True\<rparr>)"

definition newService :: service where
  "newService =
     \<lparr>fetchIntervals = [], svc_topics = [], initialized = False, timers = [], nextTimerId = 0\<rparr>"

section \<open>Concrete stores, hosts and items\<close>

text \<open>
  An in-memory store: the state is the list of items in the store's own ranking, a
  query returns the first \<open>gk_limit\<close> of them, and no operation raises.
\<close>

definition memoryStore :: "RAGKnowledgeItem list RAGKnowledgeManager" where
  "memoryStore =
     \<lparr>getKnowledge = (\<lambda>st params. Inr (take (nat (gk_limit params)) st)),
      listAllKnowledge = (\<lambda>st. Inr st),
      createKnowledge = (\<lambda>st item. Inr (st @ [item])),
      removeKnowledge = (\<lambda>st i. Inr (filter (\<lambda>item. item_id item \<noteq> i) st))\<rparr>"

text \<open>The same store with a query that raises whenever it carries no query text.\<close>

definition listingFails :: "RAGKnowledgeItem list RAGKnowledgeManager" where
  "listingFails =
     memoryStore\<lparr>getKnowledge :=
       (\<lambda>st params. if gk_query params = None then Inl AdapterError
                     else Inr (take (nat (gk_limit params)) st))\<rparr>"

text \<open>The same store with a deletion that raises on one id.\<close>

definition removeFailsOn :: "UUID \<Rightarrow> RAGKnowledgeItem list RAGKnowledgeManager" where
  "removeFailsOn bad =
     memoryStore\<lparr>removeKnowledge :=
       (\<lambda>st i. if i = bad then Inl AdapterError
                else Inr (filter (\<lambda>item. item_id item \<noteq> i) st))\<rparr>"

fun decimal :: "nat \<Rightarrow> string" where
  "decimal n =
     (if n < 10 then [char_of (48 + n)] else decimal (n div 10) @ [char_of (48 + n mod 10)])"

definition asciiLower :: "char \<Rightarrow> char" where
  "asciiLower c =
     (case map_of (zip ''ABCDEFGHIJKLMNOPQRSTUVWXYZ'' ''abcdefghijklmnopqrstuvwxyz'') c of
        None \<Rightarrow> c
      | Some l \<Rightarrow> l)"

definition joined :: "string list option \<Rightarrow> string" where
  "joined xs = (case xs of None \<Rightarrow> [] | Some ys \<Rightarrow> concat (map (\<lambda>y. y @ '','') ys))"

text \<open>
  A host for concrete evaluation: keys are the fields in order, separated by bars, dates
  print in decimal, and the id of a string is the string.
\<close>

definition plainHost :: jsHost where
  "plainHost =
     \<lparr>JSON_stringify = (\<lambda>k.
        (case ck_query k of None \<Rightarrow> [] | Some q \<Rightarrow> q) @ ''|''
        @ (case ck_fromDate k of None \<Rightarrow> [] | Some d \<Rightarrow> d) @ ''|''
        @ (case ck_toDate k of None \<Rightarrow> [] | Some d \<Rightarrow> d) @ ''|''
        @ joined (ck_sources k) @ ''|'' @ joined (ck_topics k)),
      toISOString = (\<lambda>t. decimal (nat t)),
      stringToUuid = (\<lambda>s. s),
      toLowerCase = map asciiLower,
      hostname = (\<lambda>u. Some u),
      newDate = (\<lambda>s. InvalidDate)\<rparr>"

text \<open>A stored news item with the given id, title, date and similarity score.\<close>

definition article :: "string \<Rightarrow> string \<Rightarrow> int option \<Rightarrow> rat option \<Rightarrow> RAGKnowledgeItem" where
  "article i t p sim =
     \<lparr>item_id = i, item_agentId = ''agent'', item_text = t,
      item_metadata = Some
        \<lparr>md_title = Some t, md_source = Some ''example.org'',
         md_url = Some (''https://example.org/'' @ i), md_publishedAt = p,
         md_type = Some ''news'', md_topics = Some [''technology''],
         md_isMain = True, md_isShared = False\<rparr>,
      item_createdAt = 0, similarity = sim\<rparr>"

definition olderArticle :: RAGKnowledgeItem where
  "olderArticle = article ''a'' ''Older'' (Some 5) None"

definition newerArticle :: RAGKnowledgeItem where
  "newerArticle = article ''b'' ''Newer'' (Some 7) None"

definition undatedArticle :: RAGKnowledgeItem where
  "undatedArticle = article ''u'' ''Undated'' None None"

definition thirdArticle :: RAGKnowledgeItem where
  "thirdArticle = article ''c'' ''Third'' (Some 6) None"

text \<open>A provider result with neither a published date nor raw content.\<close>

definition undatedResult :: SearchResult where
  "undatedResult =
     \<lparr>sr_title = ''Launch day'', sr_url = Some ''https://example.org/launch'',
      sr_content = ''Published today: the launch'', sr_rawContent = None,
      sr_publishedDate = None, sr_source = None\<rparr>"

text \<open>A candidate item for the duplicate check.\<close>

definition candidate :: NewsItem where
  "candidate =
     \<lparr>ni_title = ''HELLO'', ni_content = ''body'', ni_source = ''example.org'',
      ni_url = Some ''https://example.org/new'', ni_publishedAt = Some (DateMs 9),
      ni_topics = [''technology'']\<rparr>"

section \<open>The claims' own wording\<close>

text \<open>The two store queries of a search: the first batch and the escalated one.\<close>

definition firstQuery :: "NewsSearchOptions \<Rightarrow> getKnowledgeParams" where
  "firstQuery options =
     queryParams options (desiredCountOf options * estimateFilterComplexity options)"

definition escalatedQuery :: "NewsSearchOptions \<Rightarrow> getKnowledgeParams" where
  "escalatedQuery options =
     queryParams options (desiredCountOf options * estimateFilterComplexity options * 10)"

text \<open>
  The filter as claim C1 words it: the type is news, the date is within each bound that
  is set, the source is a member of a non-empty sources filter, the topics meet a
  non-empty topics filter.
\<close>

definition specMatches :: "NewsSearchOptions \<Rightarrow> RAGKnowledgeItem \<Rightarrow> bool" where
  "specMatches options item =
     (let md = metadataOf item in
      md_type md = Some ''news''
      \<and> (case fromDate options of
            None \<Rightarrow> True
          | Some from \<Rightarrow> (case md_publishedAt md of None \<Rightarrow> False | Some p \<Rightarrow> p \<ge> from))
      \<and> (case toDate options of
            None \<Rightarrow> True
          | Some to \<Rightarrow> (case md_publishedAt md of None \<Rightarrow> False | Some p \<Rightarrow> p \<le> to))
      \<and> (case sources options of
            None \<Rightarrow> True
          | Some ss \<Rightarrow> ss = [] \<or> (case md_source md of None \<Rightarrow> False | Some s \<Rightarrow> s \<in> set ss))
      \<and> (case topics options of
            None \<Rightarrow> True
          | Some ts \<Rightarrow> ts = [] \<or>
              (case md_topics md of None \<Rightarrow> False | Some tps \<Rightarrow> list_ex (\<lambda>t. t \<in> set ts) tps)))"

text \<open>
  The result claim C1 describes for a store holding \<open>stored\<close>: the matching entries,
  newest first, cut to \<open>limit\<close> entries, 10 when the limit is absent.
\<close>

definition specSearch :: "RAGKnowledgeItem list \<Rightarrow> NewsSearchOptions \<Rightarrow> RAGKnowledgeItem list" where
  "specSearch stored options =
     take (nat (case limit options of None \<Rightarrow> 10 | Some l \<Rightarrow> l))
       (sortNewestFirst (filter (specMatches options) stored))"

text \<open>
  The filter the code applies, in the same wording: a date bound is tested only on an
  entry whose \<open>publishedAt\<close> is a number, and a source must be a non-empty string.
\<close>

definition matchesFilters :: "NewsSearchOptions \<Rightarrow> RAGKnowledgeItem \<Rightarrow> bool" where
  "matchesFilters options item =
     (let md = metadataOf item in
      md_type md = Some ''news''
      \<and> (case (fromDate options, md_publishedAt md) of (Some from, Some p) \<Rightarrow> p \<ge> from | _ \<Rightarrow> True)
      \<and> (case (toDate options, md_publishedAt md) of (Some to, Some p) \<Rightarrow> p \<le> to | _ \<Rightarrow> True)
      \<and> (case sources options of
            None \<Rightarrow> True
          | Some ss \<Rightarrow> ss = [] \<or>
              (case md_source md of None \<Rightarrow> False | Some s \<Rightarrow> s \<noteq> [] \<and> s \<in> set ss))
      \<and> (case topics options of
            None \<Rightarrow> True
          | Some ts \<Rightarrow> ts = [] \<or>
              (case md_topics md of None \<Rightarrow> False | Some tps \<Rightarrow> list_ex (\<lambda>t. t \<in> set ts) tps)))"

text \<open>Two items are the same article for claim C3: the same url, or no url and the same
  title and source.\<close>

definition sameArticle :: "NewsItem \<Rightarrow> NewsItem \<Rightarrow> bool" where
  "sameArticle a b =
     ((truthy (ni_url a) \<and> ni_url a = ni_url b)
      \<or> (\<not> truthy (ni_url a) \<and> \<not> truthy (ni_url b)
          \<and> ni_title a = ni_title b \<and> ni_source a = ni_source b))"

text \<open>
  The entries the store answers a search with: the listing, or the first batch,
  followed by the escalated batch when the search issues the escalated query.
\<close>

definition answered ::
  "'s RAGKnowledgeManager \<Rightarrow> 's \<Rightarrow> NewsSearchOptions \<Rightarrow> RAGKnowledgeItem list" where
  "answered m st options =
     (if \<not> truthy (query options) \<and> \<not> truthy (conversationContext options) then
        (case listAllKnowledge m st of Inl e \<Rightarrow> [] | Inr allItems \<Rightarrow> allItems)
      else
        (case getKnowledge m st (firstQuery options) of
           Inl e \<Rightarrow> []
         | Inr result \<Rightarrow>
             if result \<noteq> []
                \<and> int (length (filterNewsResults result options)) < desiredCountOf options
             then result @ (case getKnowledge m st (escalatedQuery options) of
                              Inl e \<Rightarrow> [] | Inr largerBatch \<Rightarrow> largerBatch)
             else result))"

text \<open>
  The two store queries of the duplicate check, and the title it reads from a stored
  entry (\<^verbatim>\<open>metadata.title || ""\<close>).
\<close>

definition urlLookup :: getKnowledgeParams where
  "urlLookup = \<lparr>gk_query = None, gk_limit = 100, gk_conversationContext = None\<rparr>"

definition storedTitle :: "RAGKnowledgeItem \<Rightarrow> string" where
  "storedTitle item = (case md_title (metadataOf item) of None \<Rightarrow> [] | Some t \<Rightarrow> t)"

text \<open>The deletions of the given items, one call each, in order.\<close>

definition removals :: "RAGKnowledgeItem list \<Rightarrow> storeCall list" where
  "removals items = map (\<lambda>item. RemoveKnowledge (item_id item)) items"

text \<open>
  The store after the deletion of the given items, one after the other; a deletion
  that raises leaves the store as it is.
\<close>

definition removedState :: "'s RAGKnowledgeManager \<Rightarrow> 's \<Rightarrow> RAGKnowledgeItem list \<Rightarrow> 's" where
  "removedState m st items =
     fold (\<lambda>item s. case removeKnowledge m s (item_id item) of Inl e \<Rightarrow> s | Inr s' \<Rightarrow> s')
       items st"

text \<open>
  The deletion of the \<open>k\<close>-th of the given items succeeds in the store that the
  deletions before it leave.
\<close>

definition deletionSucceeds ::
  "'s RAGKnowledgeManager \<Rightarrow> 's \<Rightarrow> RAGKnowledgeItem list \<Rightarrow> nat \<Rightarrow> bool" where
  "deletionSucceeds m st items k =
     (case removeKnowledge m (removedState m st (take k items)) (item_id (items ! k)) of
        Inl e \<Rightarrow> False
      | Inr s' \<Rightarrow> True)"

text \<open>Every timer id the service remembers was handed out by the runtime.\<close>

definition idsBelow :: "service \<Rightarrow> bool" where
  "idsBelow s = list_all (\<lambda>entry. snd entry < nextTimerId s) (fetchIntervals s)"

section \<open>Theorems\<close>

subsection \<open>Evaluation of the search on concrete inputs\<close>

lemmas search_eval = searchNews_def getCachedNews_def desiredCountOf_def truthy_def nonEmpty_def
  estimateFilterComplexity_def queryParams_def memoryStore_def filterNewsResults_def keepNews_def
  metadataOf_def article_def sortNewestFirst_def sortDate_def slice0_def Let_def noOptions_def
  olderArticle_def newerArticle_def


subsection \<open>The complexity multiplier\<close>

lemma estimateFilterComplexity_spec:
  "estimateFilterComplexity options = specComplexity options"
  by (cases "fromDate options"; cases "toDate options")
     (simp_all add: estimateFilterComplexity_def specComplexity_def bothBounds_def
        oneBound_def spanDays_def Let_def)

text \<open>
  Claim C5. For every options value the complexity multiplier of the code is the one
  the specification describes: 1, plus 5, 4 or 3 for a full date range of fewer than
  7 days, fewer than 30 days, or more, plus 2 for a single bound, plus 1 for a non-empty
  topics filter, plus 1 for a non-empty sources filter. A 3-day range gives 6, a 20-day
  range gives 5, and no bounds with topics and sources gives 3.
\<close>

theorem complexity_multiplier:
  "estimateFilterComplexity options = specComplexity options
   \<and> estimateFilterComplexity (noOptions\<lparr>fromDate := Some t, toDate := Some (t + 3 * dayMs)\<rparr>) = 6
   \<and> estimateFilterComplexity (noOptions\<lparr>fromDate := Some t, toDate := Some (t + 20 * dayMs)\<rparr>) = 5
   \<and> estimateFilterComplexity
         (noOptions\<lparr>topics := Some (tp # tps), sources := Some (s # ss)\<rparr>) = 3"
proof (intro conjI)
  show "estimateFilterComplexity options = specComplexity options"
    by (rule estimateFilterComplexity_spec)
qed (simp_all add: estimateFilterComplexity_def noOptions_def dayMs_def daysBetween_def
       nonEmpty_def)


subsection \<open>The cache\<close>

lemma searchNews_hit:
  "getCachedNews h cache now options = Some rs \<Longrightarrow>
   searchNews h m st cache now later options = (rs, cache, [])"
  by (simp add: searchNews_def)


lemma setCachedNews_lookup:
  "setCachedNews h cache t options rs (generateCacheKey h options) =
     Some \<lparr>ce_timestamp = t, ce_results = rs\<rparr>"
  by (simp add: setCachedNews_def cleanExpiredCache_def CACHE_TTL_def)

lemma getCachedNews_after_set:
  "generateCacheKey h options' = generateCacheKey h options \<Longrightarrow>
   getCachedNews h (setCachedNews h cache t options rs) now options' =
     (if now - t < 5 * 60 * 1000 then Some rs else None)"
  by (simp add: getCachedNews_def setCachedNews_lookup CACHE_TTL_def)

lemma generateCacheKey_limit_context:
  "generateCacheKey h (options\<lparr>limit := l, conversationContext := c\<rparr>) =
     generateCacheKey h options"
  by (simp add: generateCacheKey_def)

text \<open>A search that went to the store and returned items has cached them.\<close>

lemma searchNews_cached_results:
  assumes "searchNews h m st cache now later options = (rs, cache', calls)"
    and "calls \<noteq> []" and "rs \<noteq> []"
  shows "cache' = setCachedNews h cache later options rs"
proof (cases "getCachedNews h cache now options")
  case (Some a)
  with assms show ?thesis by (simp add: searchNews_def)
next
  case None
  show ?thesis
  proof (cases "\<not> truthy (query options) \<and> \<not> truthy (conversationContext options)")
    case True
    with None assms show ?thesis
      by (cases "listAllKnowledge m st") (auto simp: searchNews_def Let_def)
  next
    case False
    let ?n = "desiredCountOf options * estimateFilterComplexity options"
    show ?thesis
    proof (cases "getKnowledge m st (queryParams options ?n)")
      case (Inl e)
      with None False assms show ?thesis by (auto simp: searchNews_def Let_def)
    next
      case (Inr result)
      show ?thesis
      proof (cases "getKnowledge m st (queryParams options (?n * 10))")
        case (Inl e)
        with Inr None False assms show ?thesis
          by (auto simp: searchNews_def Let_def split: if_splits)
      next
        case (Inr largerBatch)
        with \<open>getKnowledge m st (queryParams options ?n) = Inr result\<close> None False assms
        show ?thesis
          by (auto simp: searchNews_def Let_def split: if_splits)
      qed
    qed
  qed
qed

lemma searchNews_after_cached_search:
  assumes a: "searchNews h m st cache now1 later1 options = (rs, cache1, calls)
        \<and> calls \<noteq> [] \<and> rs \<noteq> [] \<and> now2 - later1 < 5 * 60 * 1000"
  shows "searchNews h m2 st2 cache1 now2 later2
           (options\<lparr>limit := l, conversationContext := c\<rparr>) = (rs, cache1, [])"
proof -
  from a have c1: "cache1 = setCachedNews h cache later1 options rs"
    by (intro searchNews_cached_results[of h m st cache now1 later1 options rs cache1 calls])
       simp_all
  from a have "now2 - later1 < 5 * 60 * 1000" by simp
  then have "getCachedNews h (setCachedNews h cache later1 options rs) now2
      (options\<lparr>limit := l, conversationContext := c\<rparr>) = Some rs"
    by (simp add: getCachedNews_after_set generateCacheKey_limit_context)
  then show ?thesis
    unfolding c1 by (rule searchNews_hit)
qed



text \<open>
  Claim C10. The cache key does not depend on \<open>limit\<close> and \<open>conversationContext\<close>:
  options that differ only there have the same key. Hence a search within 5 minutes of
  the caching of an earlier result, with options that differ from the earlier ones only
  in those two fields, returns the earlier result list unchanged, whatever its own limit
  and whatever the store holds by then.
\<close>

theorem cache_key_ignores_limit_and_context:
  "generateCacheKey h (options\<lparr>limit := l, conversationContext := c\<rparr>) =
     generateCacheKey h options
   \<and> (now2 - later1 < 5 * 60 * 1000 \<longrightarrow>
        searchNews h m2 st2 (setCachedNews h cache later1 options rs) now2 later2
            (options\<lparr>limit := l, conversationContext := c\<rparr>) =
          (rs, setCachedNews h cache later1 options rs, []))
   \<and> (searchNews h m st cache now1 later1 options = (rs, cache1, calls)
        \<and> calls \<noteq> [] \<and> rs \<noteq> [] \<and> now2 - later1 < 5 * 60 * 1000 \<longrightarrow>
        searchNews h m2 st2 cache1 now2 later2
            (options\<lparr>limit := l, conversationContext := c\<rparr>) = (rs, cache1, []))"
proof -
  have 2: "searchNews h m2 st2 (setCachedNews h cache later1 options rs) now2 later2
            (options\<lparr>limit := l, conversationContext := c\<rparr>) =
          (rs, setCachedNews h cache later1 options rs, [])"
    if "now2 - later1 < 5 * 60 * 1000"
  proof -
    from that have "getCachedNews h (setCachedNews h cache later1 options rs) now2
        (options\<lparr>limit := l, conversationContext := c\<rparr>) = Some rs"
      by (simp add: getCachedNews_after_set generateCacheKey_limit_context)
    then show ?thesis by (rule searchNews_hit)
  qed
  show ?thesis
  proof (intro conjI impI)
    show "generateCacheKey h (options\<lparr>limit := l, conversationContext := c\<rparr>) =
       generateCacheKey h options"
      by (rule generateCacheKey_limit_context)
  qed (erule 2, erule searchNews_after_cached_search)
qed

theorem cache_key_ignores_limit_and_context_witness:
  "searchNews plainHost memoryStore []
      (setCachedNews plainHost Map.empty 10 (noOptions\<lparr>limit := Some 5\<rparr>)
         [newerArticle, olderArticle])
      1000 1000 (noOptions\<lparr>limit := Some 5\<rparr>\<lparr>limit := Some 1, conversationContext := Some ''hi''\<rparr>) =
     ([newerArticle, olderArticle],
      setCachedNews plainHost Map.empty 10 (noOptions\<lparr>limit := Some 5\<rparr>)
         [newerArticle, olderArticle], [])
   \<and> (1::int) < int (length [newerArticle, olderArticle])"
proof -
  let ?o = "noOptions\<lparr>limit := Some 5\<rparr>"
  let ?rs = "[newerArticle, olderArticle]"
  have first: "searchNews plainHost memoryStore [olderArticle, newerArticle] Map.empty 0 10 ?o =
      (?rs, setCachedNews plainHost Map.empty 10 ?o ?rs, [ListAllKnowledge])"
    by (simp add: search_eval)
  then have "searchNews plainHost memoryStore [olderArticle, newerArticle] Map.empty 0 10 ?o =
      (?rs, setCachedNews plainHost Map.empty 10 ?o ?rs, [ListAllKnowledge])
      \<and> [ListAllKnowledge] \<noteq> [] \<and> ?rs \<noteq> [] \<and> (1000::int) - 10 < 5 * 60 * 1000"
    by simp
  with cache_key_ignores_limit_and_context[where h = plainHost and m = memoryStore
      and st = "[olderArticle, newerArticle]" and cache = Map.empty and ?now1.0 = 0
      and ?later1.0 = 10 and options = ?o and rs = ?rs
      and ?cache1.0 = "setCachedNews plainHost Map.empty 10 ?o ?rs"
      and calls = "[ListAllKnowledge]" and ?now2.0 = 1000 and ?m2.0 = memoryStore
      and ?st2.0 = "[]" and ?later2.0 = 1000 and l = "Some 1" and c = "Some ''hi''"]
  have "searchNews plainHost memoryStore [] (setCachedNews plainHost Map.empty 10 ?o ?rs)
      1000 1000 (?o\<lparr>limit := Some 1, conversationContext := Some ''hi''\<rparr>) =
     (?rs, setCachedNews plainHost Map.empty 10 ?o ?rs, [])"
    by blast
  then show ?thesis by simp
qed

subsection \<open>Searching\<close>

lemma keepNews_matchesFilters: "keepNews options item = matchesFilters options item"
  by (auto simp: keepNews_def matchesFilters_def Let_def split: option.splits)

lemma escalated_limit:
  "gk_limit (escalatedQuery options) = desiredCountOf options * estimateFilterComplexity options * 10"
  by (simp add: escalatedQuery_def queryParams_def)

lemma searchNews_query_path:
  assumes "getCachedNews h cache now options = None"
    and "truthy (query options) \<or> truthy (conversationContext options)"
  shows "searchNews h m st cache now later options =
     (case getKnowledge m st (firstQuery options) of
        Inl e \<Rightarrow> ([], cache, [GetKnowledge (firstQuery options)])
      | Inr result \<Rightarrow>
          if result = [] then ([], cache, [GetKnowledge (firstQuery options)])
          else if int (length (filterNewsResults result options)) < desiredCountOf options then
            (case getKnowledge m st (escalatedQuery options) of
               Inl e \<Rightarrow> ([], cache, [GetKnowledge (firstQuery options), GetKnowledge (escalatedQuery options)])
             | Inr largerBatch \<Rightarrow>
                 (let r = slice0 (desiredCountOf options)
                      (sortNewestFirst (filterNewsResults result options @ filterNewsResults largerBatch options))
                  in (r, setCachedNews h cache later options r,
                      [GetKnowledge (firstQuery options), GetKnowledge (escalatedQuery options)])))
          else
            (let r = slice0 (desiredCountOf options) (sortNewestFirst (filterNewsResults result options))
             in (r, setCachedNews h cache later options r, [GetKnowledge (firstQuery options)])))"
  using assms
  by (auto simp: searchNews_def firstQuery_def escalatedQuery_def Let_def split: sum.splits)

lemma searchNews_list_path:
  assumes "getCachedNews h cache now options = None"
    and "\<not> truthy (query options) \<and> \<not> truthy (conversationContext options)"
  shows "searchNews h m st cache now later options =
     (case listAllKnowledge m st of
        Inl e \<Rightarrow> ([], cache, [ListAllKnowledge])
      | Inr allItems \<Rightarrow>
          (let r = slice0 (desiredCountOf options) (sortNewestFirst (filterNewsResults allItems options))
           in (r, setCachedNews h cache later options r, [ListAllKnowledge])))"
  using assms
  by (auto simp: searchNews_def Let_def split: sum.splits)


lemma query_path_trace:
  assumes "getCachedNews h cache now options = None"
    and "truthy (query options) \<or> truthy (conversationContext options)"
  shows "snd (snd (searchNews h m st cache now later options)) = [GetKnowledge (firstQuery options)]
     \<or> snd (snd (searchNews h m st cache now later options)) =
         [GetKnowledge (firstQuery options), GetKnowledge (escalatedQuery options)]"
  by (simp add: searchNews_query_path[OF assms] Let_def split: sum.splits)

text \<open>
  Claim C6. On the query path (a cache miss with a query or a conversation context)
  whose first store query returned a batch: an empty batch ends the search with the empty
  list and no further query; a non-empty batch with fewer filtered matches than the
  limit (10 when the limit is absent or 0) is followed by exactly one further query, of
  size limit times complexity times 10, whose filtered matches are appended to those of
  the first batch before sorting and cutting; otherwise no further query is issued. In
  every case the store queries of the call are the first query alone or the first and the
  escalated one: never more than one escalation.
\<close>

theorem single_escalation:
  assumes miss: "getCachedNews h cache now options = None"
    and path: "truthy (query options) \<or> truthy (conversationContext options)"
    and first: "getKnowledge m st (firstQuery options) = Inr result"
  shows
    "(result = [] \<longrightarrow>
        searchNews h m st cache now later options = ([], cache, [GetKnowledge (firstQuery options)]))
     \<and> (result \<noteq> [] \<and> int (length (filterNewsResults result options)) < desiredCountOf options \<longrightarrow>
          snd (snd (searchNews h m st cache now later options)) =
            [GetKnowledge (firstQuery options), GetKnowledge (escalatedQuery options)]
          \<and> (\<forall>largerBatch. getKnowledge m st (escalatedQuery options) = Inr largerBatch \<longrightarrow>
                fst (searchNews h m st cache now later options) =
                  slice0 (desiredCountOf options)
                    (sortNewestFirst (filterNewsResults result options
                       @ filterNewsResults largerBatch options))))
     \<and> (result \<noteq> [] \<and> \<not> int (length (filterNewsResults result options)) < desiredCountOf options \<longrightarrow>
          snd (snd (searchNews h m st cache now later options)) = [GetKnowledge (firstQuery options)]
          \<and> fst (searchNews h m st cache now later options) =
              slice0 (desiredCountOf options) (sortNewestFirst (filterNewsResults result options)))
     \<and> (snd (snd (searchNews h m st cache now later options)) = [GetKnowledge (firstQuery options)]
          \<or> snd (snd (searchNews h m st cache now later options)) =
             [GetKnowledge (firstQuery options), GetKnowledge (escalatedQuery options)])
     \<and> gk_limit (firstQuery options) = desiredCountOf options * estimateFilterComplexity options
     \<and> gk_limit (escalatedQuery options) =
          desiredCountOf options * estimateFilterComplexity options * 10"
proof -
  note eq = searchNews_query_path[OF miss path, of m st later]
  have 1: "searchNews h m st cache now later options = ([], cache, [GetKnowledge (firstQuery options)])"
    if "result = []"
    using that first by (simp add: eq)
  have 2: "snd (snd (searchNews h m st cache now later options)) =
            [GetKnowledge (firstQuery options), GetKnowledge (escalatedQuery options)]"
    if "result \<noteq> [] \<and> int (length (filterNewsResults result options)) < desiredCountOf options"
    using that first by (simp add: eq Let_def split: sum.splits)
  have 3: "fst (searchNews h m st cache now later options) =
                  slice0 (desiredCountOf options)
                    (sortNewestFirst (filterNewsResults result options
                       @ filterNewsResults largerBatch options))"
    if "result \<noteq> [] \<and> int (length (filterNewsResults result options)) < desiredCountOf options"
      and "getKnowledge m st (escalatedQuery options) = Inr largerBatch" for largerBatch
    using that first by (simp add: eq Let_def)
  have 4: "snd (snd (searchNews h m st cache now later options)) = [GetKnowledge (firstQuery options)]
          \<and> fst (searchNews h m st cache now later options) =
              slice0 (desiredCountOf options) (sortNewestFirst (filterNewsResults result options))"
    if "result \<noteq> [] \<and> \<not> int (length (filterNewsResults result options)) < desiredCountOf options"
    using that first by (simp add: eq Let_def)
  have 5: "gk_limit (firstQuery options) = desiredCountOf options * estimateFilterComplexity options"
    by (simp add: firstQuery_def queryParams_def)
  note 6 = query_path_trace[OF miss path, of m st later]
  note 7 = escalated_limit[of options]
  show ?thesis
  proof (intro conjI impI allI)
    fix largerBatch
    assume "result \<noteq> [] \<and> int (length (filterNewsResults result options)) < desiredCountOf options"
      and "getKnowledge m st (escalatedQuery options) = Inr largerBatch"
    then show "fst (searchNews h m st cache now later options) =
                  slice0 (desiredCountOf options)
                    (sortNewestFirst (filterNewsResults result options
                       @ filterNewsResults largerBatch options))"
      by (rule 3)
  qed (use 1 2 4 5 6 7 in blast)+
qed

lemma search_calls_at_most_two:
  "length (snd (snd (searchNews h m st cache now later options))) \<le> 2"
  by (simp add: searchNews_def Let_def split: option.splits sum.splits)


lemma filterNewsResults_append:
  "filterNewsResults (xs @ ys) options = filterNewsResults xs options @ filterNewsResults ys options"
  by (simp add: filterNewsResults_def)

lemma answered_query_path:
  "truthy (query options) \<or> truthy (conversationContext options) \<Longrightarrow>
   answered m st options =
     (case getKnowledge m st (firstQuery options) of
        Inl e \<Rightarrow> []
      | Inr result \<Rightarrow>
          if result \<noteq> []
             \<and> int (length (filterNewsResults result options)) < desiredCountOf options
          then result @ (case getKnowledge m st (escalatedQuery options) of
                           Inl e \<Rightarrow> [] | Inr largerBatch \<Rightarrow> largerBatch)
          else result)"
  by (auto simp: answered_def)

lemma searchNews_shape:
  assumes miss: "getCachedNews h cache now options = None"
  shows "\<exists>xs. set xs \<subseteq> set (answered m st options)
      \<and> fst (searchNews h m st cache now later options) =
          slice0 (desiredCountOf options) (sortNewestFirst (filterNewsResults xs options))"
proof (cases "\<not> truthy (query options) \<and> \<not> truthy (conversationContext options)")
  case True
  show ?thesis
  proof (cases "listAllKnowledge m st")
    case (Inl e)
    with True miss have "fst (searchNews h m st cache now later options) = []"
      by (simp add: searchNews_list_path)
    then have "set [] \<subseteq> set (answered m st options)
      \<and> fst (searchNews h m st cache now later options) =
          slice0 (desiredCountOf options) (sortNewestFirst (filterNewsResults [] options))"
      by (simp add: slice0_def sortNewestFirst_def filterNewsResults_def)
    then show ?thesis by blast
  next
    case (Inr allItems)
    with True miss have "set allItems \<subseteq> set (answered m st options)
      \<and> fst (searchNews h m st cache now later options) =
          slice0 (desiredCountOf options) (sortNewestFirst (filterNewsResults allItems options))"
      by (simp add: searchNews_list_path answered_def Let_def)
    then show ?thesis by blast
  qed
next
  case False
  then have path: "truthy (query options) \<or> truthy (conversationContext options)" by blast
  note eq = searchNews_query_path[OF miss path, of m st later]
  have nil: "set [] \<subseteq> set (answered m st options)
      \<and> [] = slice0 (desiredCountOf options) (sortNewestFirst (filterNewsResults [] options))"
    by (simp add: slice0_def sortNewestFirst_def filterNewsResults_def)
  show ?thesis
  proof (cases "getKnowledge m st (firstQuery options)")
    case (Inl e)
    then have "fst (searchNews h m st cache now later options) = []" by (simp add: eq)
    with nil show ?thesis by metis
  next
    case first: (Inr result)
    show ?thesis
    proof (cases "result = []")
      case True
      with first have "fst (searchNews h m st cache now later options) = []" by (simp add: eq)
      with nil show ?thesis by metis
    next
      case nonempty: False
      show ?thesis
      proof (cases "int (length (filterNewsResults result options)) < desiredCountOf options")
        case enough: False
        with first nonempty
        have "set result \<subseteq> set (answered m st options)
          \<and> fst (searchNews h m st cache now later options) =
            slice0 (desiredCountOf options) (sortNewestFirst (filterNewsResults result options))"
          by (simp add: eq answered_query_path[OF path] Let_def)
        then show ?thesis by blast
      next
        case short: True
        show ?thesis
        proof (cases "getKnowledge m st (escalatedQuery options)")
          case (Inl e)
          with first nonempty short
          have "fst (searchNews h m st cache now later options) = []" by (simp add: eq)
          with nil show ?thesis by metis
        next
          case (Inr largerBatch)
          with first nonempty short
          have "set (result @ largerBatch) \<subseteq> set (answered m st options)
            \<and> fst (searchNews h m st cache now later options) =
              slice0 (desiredCountOf options)
                (sortNewestFirst (filterNewsResults (result @ largerBatch) options))"
            by (simp add: eq answered_query_path[OF path] Let_def filterNewsResults_append)
          then show ?thesis by blast
        qed
      qed
    qed
  qed
qed

lemma set_slice0: "set (slice0 d xs) \<subseteq> set xs"
  by (simp add: slice0_def set_take_subset)

lemma length_slice0: "0 \<le> d \<Longrightarrow> int (length (slice0 d xs)) \<le> d"
  by (simp add: slice0_def)

lemma sorted_sortNewestFirst:
  "sorted_wrt (\<lambda>a b. sortDate a \<ge> sortDate b) (sortNewestFirst xs)"
proof -
  have "sorted (map (\<lambda>item. - sortDate item) (sortNewestFirst xs))"
    by (simp add: sortNewestFirst_def)
  then show ?thesis by (simp add: sorted_map)
qed

lemma sorted_slice0:
  "sorted_wrt P xs \<Longrightarrow> sorted_wrt P (slice0 d xs)"
  by (simp add: slice0_def sorted_wrt_take)

lemma result_properties:
  "list_all (matchesFilters options) (slice0 d (sortNewestFirst (filterNewsResults xs options)))
   \<and> sorted_wrt (\<lambda>a b. sortDate a \<ge> sortDate b) (slice0 d (sortNewestFirst (filterNewsResults xs options)))
   \<and> set (slice0 d (sortNewestFirst (filterNewsResults xs options))) \<subseteq> set xs"
proof (intro conjI)
  have sub: "set (slice0 d (sortNewestFirst (filterNewsResults xs options)))
      \<subseteq> set (filterNewsResults xs options)"
    using set_slice0[of d "sortNewestFirst (filterNewsResults xs options)"]
    by (simp add: sortNewestFirst_def)
  then show "list_all (matchesFilters options) (slice0 d (sortNewestFirst (filterNewsResults xs options)))"
    by (auto simp: list_all_iff filterNewsResults_def keepNews_matchesFilters)
  from sub show "set (slice0 d (sortNewestFirst (filterNewsResults xs options))) \<subseteq> set xs"
    by (auto simp: filterNewsResults_def)
  show "sorted_wrt (\<lambda>a b. sortDate a \<ge> sortDate b) (slice0 d (sortNewestFirst (filterNewsResults xs options)))"
    by (intro sorted_slice0 sorted_sortNewestFirst)
qed


theorem single_escalation_witness:
  "snd (snd (searchNews plainHost memoryStore [olderArticle, newerArticle] Map.empty 0 0
        (noOptions\<lparr>query := Some ''x'', limit := Some 5\<rparr>))) =
     [GetKnowledge (firstQuery (noOptions\<lparr>query := Some ''x'', limit := Some 5\<rparr>)),
      GetKnowledge (escalatedQuery (noOptions\<lparr>query := Some ''x'', limit := Some 5\<rparr>))]
   \<and> gk_limit (escalatedQuery (noOptions\<lparr>query := Some ''x'', limit := Some 5\<rparr>)) = 50
   \<and> fst (searchNews plainHost memoryStore [olderArticle, newerArticle] Map.empty 0 0
        (noOptions\<lparr>query := Some ''x'', limit := Some 5\<rparr>)) =
       [newerArticle, newerArticle, olderArticle, olderArticle]"
proof -
  let ?o = "noOptions\<lparr>query := Some ''x'', limit := Some 5\<rparr>"
  let ?st = "[olderArticle, newerArticle]"
  have miss: "getCachedNews plainHost Map.empty 0 ?o = None"
    by (simp add: getCachedNews_def)
  have path: "truthy (query ?o) \<or> truthy (conversationContext ?o)"
    by (simp add: truthy_def)
  have first: "getKnowledge memoryStore ?st (firstQuery ?o) = Inr ?st"
    by (simp add: memoryStore_def firstQuery_def queryParams_def desiredCountOf_def
        estimateFilterComplexity_def nonEmpty_def noOptions_def)
  have second: "getKnowledge memoryStore ?st (escalatedQuery ?o) = Inr ?st"
    by (simp add: memoryStore_def escalatedQuery_def queryParams_def desiredCountOf_def
        estimateFilterComplexity_def nonEmpty_def noOptions_def)
  have short: "?st \<noteq> [] \<and> int (length (filterNewsResults ?st ?o)) < desiredCountOf ?o"
    by (simp add: filterNewsResults_def keepNews_def metadataOf_def desiredCountOf_def
        noOptions_def olderArticle_def newerArticle_def article_def)
  have sorted: "slice0 (desiredCountOf ?o)
       (sortNewestFirst (filterNewsResults ?st ?o @ filterNewsResults ?st ?o)) =
     [newerArticle, newerArticle, olderArticle, olderArticle]"
    by (simp add: filterNewsResults_def keepNews_def metadataOf_def desiredCountOf_def
        noOptions_def olderArticle_def newerArticle_def article_def slice0_def
        sortNewestFirst_def sortDate_def)
  have lim: "desiredCountOf ?o * estimateFilterComplexity ?o * 10 = 50"
    by (simp add: desiredCountOf_def estimateFilterComplexity_def nonEmpty_def noOptions_def)
  from single_escalation[OF miss path first, of 0] short second sorted lim
  show ?thesis by simp
qed


text \<open>
  Claim C1, as amended. For every search that is not served from the cache: when the
  options carry neither a query nor a conversation context and the store lists its
  entries, the result is exactly the listed entries that pass the filter, sorted by
  \<open>publishedAt\<close> descending (an absent date counts as 0, ties keep the store's order),
  and cut by \<^verbatim>\<open>slice(0, limit)\<close> with the limit read as 10 when absent or 0: for a
  non-negative limit these are the first \<open>limit\<close> entries (a negative limit \<open>-k\<close>
  drops the last \<open>k\<close> entries instead). The filter keeps
  an entry when its type is news, its numeric \<open>publishedAt\<close> lies within each date
  bound that is set (an entry without a numeric \<open>publishedAt\<close> passes both bounds), its
  source is a non-empty member of a non-empty sources filter, and its topics meet a
  non-empty topics filter. On every path, each returned entry passes this filter and is
  one the store answered with, the result is sorted newest first, and for a non-negative
  limit it has at most \<open>limit\<close> entries.
\<close>

theorem search_returns_matching_newest_first:
  assumes miss: "getCachedNews h cache now options = None"
  shows
    "(\<not> truthy (query options) \<and> \<not> truthy (conversationContext options)
        \<and> listAllKnowledge m st = Inr stored \<longrightarrow>
        fst (searchNews h m st cache now later options) =
          slice0 (desiredCountOf options)
            (sortNewestFirst (filter (matchesFilters options) stored)))
     \<and> (\<not> truthy (query options) \<and> \<not> truthy (conversationContext options)
        \<and> listAllKnowledge m st = Inr stored \<and> 0 \<le> desiredCountOf options \<longrightarrow>
        fst (searchNews h m st cache now later options) =
          take (nat (desiredCountOf options))
            (sortNewestFirst (filter (matchesFilters options) stored)))
     \<and> (\<not> truthy (query options) \<and> \<not> truthy (conversationContext options)
        \<and> listAllKnowledge m st = Inr stored \<and> desiredCountOf options < 0 \<longrightarrow>
        fst (searchNews h m st cache now later options) =
          take (length (filter (matchesFilters options) stored) - nat (- desiredCountOf options))
            (sortNewestFirst (filter (matchesFilters options) stored)))
     \<and> list_all (matchesFilters options) (fst (searchNews h m st cache now later options))
     \<and> set (fst (searchNews h m st cache now later options)) \<subseteq> set (answered m st options)
     \<and> sorted_wrt (\<lambda>a b. sortDate a \<ge> sortDate b)
          (fst (searchNews h m st cache now later options))
     \<and> (0 \<le> desiredCountOf options \<longrightarrow>
          int (length (fst (searchNews h m st cache now later options))) \<le> desiredCountOf options)
     \<and> desiredCountOf options =
          (case limit options of None \<Rightarrow> 10 | Some l \<Rightarrow> if l = 0 then 10 else l)"
proof -
  obtain xs where sub: "set xs \<subseteq> set (answered m st options)"
    and eq: "fst (searchNews h m st cache now later options) =
          slice0 (desiredCountOf options) (sortNewestFirst (filterNewsResults xs options))"
    using searchNews_shape[OF miss, of m st later] by blast
  note props = result_properties[of options "desiredCountOf options" xs]
  have 1: "fst (searchNews h m st cache now later options) =
          slice0 (desiredCountOf options)
            (sortNewestFirst (filter (matchesFilters options) stored))"
    if "\<not> truthy (query options) \<and> \<not> truthy (conversationContext options)
        \<and> listAllKnowledge m st = Inr stored"
  proof -
    have "filter (keepNews options) stored = filter (matchesFilters options) stored"
      by (rule filter_cong) (simp_all add: keepNews_matchesFilters)
    with that miss show ?thesis
      by (simp add: searchNews_list_path Let_def filterNewsResults_def)
  qed
  have 2: "list_all (matchesFilters options) (fst (searchNews h m st cache now later options))"
    using props by (simp add: eq)
  have 3: "set (fst (searchNews h m st cache now later options)) \<subseteq> set (answered m st options)"
    using props sub unfolding eq by blast
  have 4: "sorted_wrt (\<lambda>a b. sortDate a \<ge> sortDate b)
          (fst (searchNews h m st cache now later options))"
    using props by (simp add: eq)
  have 5: "int (length (fst (searchNews h m st cache now later options))) \<le> desiredCountOf options"
    if "0 \<le> desiredCountOf options"
    unfolding eq using that by (rule length_slice0)
  have 6: "desiredCountOf options =
          (case limit options of None \<Rightarrow> 10 | Some l \<Rightarrow> if l = 0 then 10 else l)"
    by (simp add: desiredCountOf_def)
  have 7: "fst (searchNews h m st cache now later options) =
          take (nat (desiredCountOf options))
            (sortNewestFirst (filter (matchesFilters options) stored))"
    if "\<not> truthy (query options) \<and> \<not> truthy (conversationContext options)
        \<and> listAllKnowledge m st = Inr stored \<and> 0 \<le> desiredCountOf options"
    using 1 that by (simp add: slice0_def)
  have 8: "fst (searchNews h m st cache now later options) =
          take (length (filter (matchesFilters options) stored) - nat (- desiredCountOf options))
            (sortNewestFirst (filter (matchesFilters options) stored))"
    if "\<not> truthy (query options) \<and> \<not> truthy (conversationContext options)
        \<and> listAllKnowledge m st = Inr stored \<and> desiredCountOf options < 0"
  proof -
    from that have "nat (int (length (filter (matchesFilters options) stored))
          + desiredCountOf options) =
        length (filter (matchesFilters options) stored) - nat (- desiredCountOf options)"
      by arith
    with 1 that show ?thesis
      by (simp add: slice0_def sortNewestFirst_def)
  qed
  from 1 2 3 4 5 6 7 8 show ?thesis by blast
qed

lemmas spec_eval = specSearch_def specMatches_def metadataOf_def article_def sortNewestFirst_def
  sortDate_def noOptions_def olderArticle_def newerArticle_def undatedArticle_def

text \<open>
  Claim C1 as stated fails: an entry without a date is returned under a \<open>fromDate\<close>
  bound; a search with a query returns from the batch the store ranked first, not the
  newest stored entries; and a limit of 0 is read as 10.
\<close>

theorem search_spec_counterexample:
  "fst (searchNews plainHost memoryStore [undatedArticle] Map.empty 0 0
        (noOptions\<lparr>fromDate := Some 1000\<rparr>)) = [undatedArticle]
   \<and> specSearch [undatedArticle] (noOptions\<lparr>fromDate := Some 1000\<rparr>) = []
   \<and> fst (searchNews plainHost memoryStore [olderArticle, newerArticle] Map.empty 0 0
        (noOptions\<lparr>query := Some ''x'', limit := Some 1\<rparr>)) = [olderArticle]
   \<and> specSearch [olderArticle, newerArticle] (noOptions\<lparr>query := Some ''x'', limit := Some 1\<rparr>) =
       [newerArticle]
   \<and> fst (searchNews plainHost memoryStore [newerArticle] Map.empty 0 0
        (noOptions\<lparr>limit := Some 0\<rparr>)) = [newerArticle]
   \<and> specSearch [newerArticle] (noOptions\<lparr>limit := Some 0\<rparr>) = []"
proof (intro conjI)
  show "fst (searchNews plainHost memoryStore [undatedArticle] Map.empty 0 0
        (noOptions\<lparr>fromDate := Some 1000\<rparr>)) = [undatedArticle]"
    by (simp add: search_eval undatedArticle_def)
  show "specSearch [undatedArticle] (noOptions\<lparr>fromDate := Some 1000\<rparr>) = []"
    by (simp add: spec_eval)
  show "fst (searchNews plainHost memoryStore [olderArticle, newerArticle] Map.empty 0 0
        (noOptions\<lparr>query := Some ''x'', limit := Some 1\<rparr>)) = [olderArticle]"
    by (simp add: search_eval)
  show "specSearch [olderArticle, newerArticle] (noOptions\<lparr>query := Some ''x'', limit := Some 1\<rparr>) =
       [newerArticle]"
    by (simp add: spec_eval)
  show "fst (searchNews plainHost memoryStore [newerArticle] Map.empty 0 0
        (noOptions\<lparr>limit := Some 0\<rparr>)) = [newerArticle]"
    by (simp add: search_eval)
  show "specSearch [newerArticle] (noOptions\<lparr>limit := Some 0\<rparr>) = []"
    by (simp add: spec_eval)
qed

theorem search_returns_matching_newest_first_witness:
  "fst (searchNews plainHost memoryStore
          [olderArticle, undatedArticle, newerArticle, thirdArticle] Map.empty 0 0
          (noOptions\<lparr>fromDate := Some 6, limit := Some 2\<rparr>)) = [newerArticle, thirdArticle]
   \<and> filter (matchesFilters (noOptions\<lparr>fromDate := Some 6, limit := Some 2\<rparr>))
        [olderArticle, undatedArticle, newerArticle, thirdArticle] =
       [undatedArticle, newerArticle, thirdArticle]
   \<and> fst (searchNews plainHost memoryStore
          [olderArticle, undatedArticle, newerArticle, thirdArticle] Map.empty 0 0
          (noOptions\<lparr>fromDate := Some 6, limit := Some (- 1)\<rparr>)) = [newerArticle, thirdArticle]
   \<and> list_all (matchesFilters (noOptions\<lparr>fromDate := Some 6, limit := Some 2\<rparr>))
        [newerArticle, thirdArticle]"
proof -
  let ?o = "noOptions\<lparr>fromDate := Some 6, limit := Some 2\<rparr>"
  let ?n = "noOptions\<lparr>fromDate := Some 6, limit := Some (- 1)\<rparr>"
  let ?st = "[olderArticle, undatedArticle, newerArticle, thirdArticle]"
  note ev = matchesFilters_def metadataOf_def desiredCountOf_def noOptions_def
    olderArticle_def newerArticle_def undatedArticle_def thirdArticle_def article_def
    sortNewestFirst_def sortDate_def
  have miss: "getCachedNews plainHost Map.empty 0 ?o = None"
    by (simp add: getCachedNews_def)
  have path: "\<not> truthy (query ?o) \<and> \<not> truthy (conversationContext ?o)
      \<and> listAllKnowledge memoryStore ?st = Inr ?st \<and> 0 \<le> desiredCountOf ?o"
    by (simp add: truthy_def noOptions_def memoryStore_def desiredCountOf_def)
  have kept: "filter (matchesFilters ?o) ?st = [undatedArticle, newerArticle, thirdArticle]"
    by (simp add: ev)
  have val: "take (nat (desiredCountOf ?o)) (sortNewestFirst (filter (matchesFilters ?o) ?st)) =
      [newerArticle, thirdArticle]"
    by (simp add: ev)
  note inst = search_returns_matching_newest_first[OF miss, of memoryStore ?st ?st 0]
  from inst path have "fst (searchNews plainHost memoryStore ?st Map.empty 0 0 ?o) =
      take (nat (desiredCountOf ?o)) (sortNewestFirst (filter (matchesFilters ?o) ?st))"
    by blast
  then have res: "fst (searchNews plainHost memoryStore ?st Map.empty 0 0 ?o) =
      [newerArticle, thirdArticle]"
    by (simp only: val)
  from inst have "list_all (matchesFilters ?o)
      (fst (searchNews plainHost memoryStore ?st Map.empty 0 0 ?o))"
    by blast
  then have all: "list_all (matchesFilters ?o) [newerArticle, thirdArticle]"
    by (simp only: res)
  have missN: "getCachedNews plainHost Map.empty 0 ?n = None"
    by (simp add: getCachedNews_def)
  have pathN: "\<not> truthy (query ?n) \<and> \<not> truthy (conversationContext ?n)
      \<and> listAllKnowledge memoryStore ?st = Inr ?st \<and> desiredCountOf ?n < 0"
    by (simp add: truthy_def noOptions_def memoryStore_def desiredCountOf_def)
  have valN: "take (length (filter (matchesFilters ?n) ?st) - nat (- desiredCountOf ?n))
        (sortNewestFirst (filter (matchesFilters ?n) ?st)) = [newerArticle, thirdArticle]"
    by (simp add: ev)
  note instN = search_returns_matching_newest_first[OF missN, of memoryStore ?st ?st 0]
  from instN pathN have "fst (searchNews plainHost memoryStore ?st Map.empty 0 0 ?n) =
      take (length (filter (matchesFilters ?n) ?st) - nat (- desiredCountOf ?n))
        (sortNewestFirst (filter (matchesFilters ?n) ?st))"
    by blast
  then have resN: "fst (searchNews plainHost memoryStore ?st Map.empty 0 0 ?n) =
      [newerArticle, thirdArticle]"
    by (simp only: valN)
  from res kept resN all show ?thesis by blast
qed

subsection \<open>Duplicate check\<close>

lemma verySimilar_iff:
  "verySimilar h newsItem item \<longleftrightarrow>
     toLowerCase h (storedTitle item) = toLowerCase h (ni_title newsItem)
     \<or> (case similarity item of None \<Rightarrow> False | Some s \<Rightarrow> s > 95 / 100)"
  by (simp add: verySimilar_def storedTitle_def Let_def)

lemma checkByTitle_iff:
  "fst (checkByTitle h m st newsItem) \<longleftrightarrow>
     (\<exists>results. getKnowledge m st (titleParams newsItem) = Inr results
        \<and> (\<exists>item \<in> set results. verySimilar h newsItem item))"
  by (auto simp: checkByTitle_def list_ex_iff split: sum.splits)

lemma searchNewsByMetadata_url:
  "fst (searchNewsByMetadata m st md_url u 10) \<noteq> [] \<longleftrightarrow>
     (\<exists>results. getKnowledge m st urlLookup = Inr results
        \<and> (\<exists>item \<in> set results. md_url (metadataOf item) = Some u))"
proof (cases "getKnowledge m st urlLookup")
  case (Inl e)
  then show ?thesis by (simp add: searchNewsByMetadata_def urlLookup_def)
next
  case (Inr results)
  have "take 10 (filter P results) \<noteq> [] \<longleftrightarrow> (\<exists>item \<in> set results. P item)" for P
    by (simp add: filter_empty_conv)
  with Inr show ?thesis
    by (simp add: searchNewsByMetadata_def urlLookup_def slice0_def)
qed

text \<open>
  Claim C2, as amended. The duplicate check answers true exactly when the candidate's
  url is set and the url lookup (a store query of 100 entries, which this check treats as
  empty when it raises) returns an entry whose url metadata equals it, or the store query
  on the candidate's title, limited to 5 results, returns an entry whose stored title
  (empty when absent) equals the candidate's title after lower-casing or whose similarity
  score is strictly greater than 0.95. A title query that raises counts as no match, so
  the answer is then false unless the url already matched.
\<close>

theorem duplicate_check_decides:
  "(fst (checkForDuplicate h m st newsItem) \<longleftrightarrow>
      (truthy (ni_url newsItem)
         \<and> (\<exists>results. getKnowledge m st urlLookup = Inr results
              \<and> (\<exists>item \<in> set results. md_url (metadataOf item) = ni_url newsItem)))
      \<or> (\<exists>results. getKnowledge m st (titleParams newsItem) = Inr results
            \<and> (\<exists>item \<in> set results.
                  toLowerCase h (storedTitle item) = toLowerCase h (ni_title newsItem)
                  \<or> (case similarity item of None \<Rightarrow> False | Some s \<Rightarrow> s > 95 / 100))))
   \<and> gk_query (titleParams newsItem) = Some (ni_title newsItem)
   \<and> gk_limit (titleParams newsItem) = 5"
proof -
  have split: "fst (checkForDuplicate h m st newsItem) \<longleftrightarrow>
      (truthy (ni_url newsItem)
         \<and> fst (searchNewsByMetadata m st md_url (the (ni_url newsItem)) 10) \<noteq> [])
      \<or> fst (checkByTitle h m st newsItem)"
    by (auto simp: checkForDuplicate_def Let_def split: prod.splits)
  have url: "Some (the (ni_url newsItem)) = ni_url newsItem" if "truthy (ni_url newsItem)"
    using that by (auto simp: truthy_def split: option.splits)
  have byUrl: "(truthy (ni_url newsItem)
         \<and> fst (searchNewsByMetadata m st md_url (the (ni_url newsItem)) 10) \<noteq> []) \<longleftrightarrow>
      (truthy (ni_url newsItem)
         \<and> (\<exists>results. getKnowledge m st urlLookup = Inr results
              \<and> (\<exists>item \<in> set results. md_url (metadataOf item) = ni_url newsItem)))"
    using url by (auto simp: searchNewsByMetadata_url)
  have byTitle: "fst (checkByTitle h m st newsItem) \<longleftrightarrow>
      (\<exists>results. getKnowledge m st (titleParams newsItem) = Inr results
            \<and> (\<exists>item \<in> set results.
                  toLowerCase h (storedTitle item) = toLowerCase h (ni_title newsItem)
                  \<or> (case similarity item of None \<Rightarrow> False | Some s \<Rightarrow> s > 95 / 100)))"
    by (simp add: checkByTitle_iff verySimilar_iff)
  show ?thesis
    unfolding split byUrl byTitle by (simp add: titleParams_def)
qed

text \<open>
  Claim C2 as stated fails in its last clause: the url lookup raises, and the check
  still answers true, on the title.
\<close>

theorem duplicate_error_counterexample:
  "getKnowledge listingFails [article ''s'' ''Hello'' (Some 1) None] urlLookup = Inl AdapterError
   \<and> fst (checkForDuplicate plainHost listingFails [article ''s'' ''Hello'' (Some 1) None]
        candidate)"
  by (simp add: listingFails_def memoryStore_def urlLookup_def checkForDuplicate_def
      searchNewsByMetadata_def checkByTitle_def titleParams_def verySimilar_def metadataOf_def
      candidate_def article_def truthy_def plainHost_def asciiLower_def slice0_def Let_def)


theorem duplicate_check_decides_witness:
  "fst (checkForDuplicate plainHost memoryStore
          [article ''s'' ''Other'' (Some 1) (Some (96 / 100))] (candidate\<lparr>ni_url := None\<rparr>))
   \<and> \<not> fst (checkForDuplicate plainHost memoryStore
          [article ''s'' ''Other'' (Some 1) (Some (80 / 100))] (candidate\<lparr>ni_url := None\<rparr>))
   \<and> fst (checkForDuplicate plainHost memoryStore
          [article ''s'' ''Hello'' (Some 1) (Some (80 / 100))] (candidate\<lparr>ni_url := None\<rparr>))
   \<and> fst (checkForDuplicate plainHost memoryStore
          [article ''new'' ''Other'' (Some 1) None] candidate)"
proof -
  note ev = memoryStore_def titleParams_def urlLookup_def storedTitle_def metadataOf_def
    candidate_def article_def truthy_def plainHost_def asciiLower_def
  have 1: "fst (checkForDuplicate plainHost memoryStore
          [article ''s'' ''Other'' (Some 1) (Some (96 / 100))] (candidate\<lparr>ni_url := None\<rparr>))"
    using duplicate_check_decides[of plainHost memoryStore
        "[article ''s'' ''Other'' (Some 1) (Some (96 / 100))]" "candidate\<lparr>ni_url := None\<rparr>"]
    by (simp add: ev)
  have 2: "\<not> fst (checkForDuplicate plainHost memoryStore
          [article ''s'' ''Other'' (Some 1) (Some (80 / 100))] (candidate\<lparr>ni_url := None\<rparr>))"
    using duplicate_check_decides[of plainHost memoryStore
        "[article ''s'' ''Other'' (Some 1) (Some (80 / 100))]" "candidate\<lparr>ni_url := None\<rparr>"]
    by (simp add: ev)
  have 3: "fst (checkForDuplicate plainHost memoryStore
          [article ''s'' ''Hello'' (Some 1) (Some (80 / 100))] (candidate\<lparr>ni_url := None\<rparr>))"
    using duplicate_check_decides[of plainHost memoryStore
        "[article ''s'' ''Hello'' (Some 1) (Some (80 / 100))]" "candidate\<lparr>ni_url := None\<rparr>"]
    by (simp add: ev)
  have 4: "fst (checkForDuplicate plainHost memoryStore
          [article ''new'' ''Other'' (Some 1) None] candidate)"
    using duplicate_check_decides[of plainHost memoryStore
        "[article ''new'' ''Other'' (Some 1) None]" candidate]
    by (simp add: ev)
  from 1 2 3 4 show ?thesis by blast
qed

subsection \<open>Stored ids\<close>

lemma sameArticle_idBase: "sameArticle a b \<Longrightarrow> idBase a = idBase b"
  by (auto simp: sameArticle_def idBase_def truthy_def split: option.splits)

lemma storeNewsItem_id:
  assumes "storeNewsItem h m agent st now newsItem type = (r, st', calls)"
  shows "(\<forall>k. r = Some k \<longrightarrow> item_id k = stringToUuid h (idBase newsItem))
       \<and> (\<forall>k. CreateKnowledge k \<in> set calls \<longrightarrow> item_id k = stringToUuid h (idBase newsItem))"
  using assms
  by (auto simp: storeNewsItem_def knowledgeItemOf_def Let_def split: option.splits sum.splits)

text \<open>
  Claim C3. The id under which an item is stored is \<open>stringToUuid\<close> of the url when the
  url is set, and of title, a dash and source otherwise: a function of the item alone.
  Two items with the same non-empty url, or both without a url and with the same title
  and source, get the same id, whatever the clock, the agent, the store and its state at
  either call; every \<^verbatim>\<open>createKnowledge\<close> call for either carries that id.
\<close>

theorem stored_id_deterministic:
  assumes same: "sameArticle a b"
    and storeA: "storeNewsItem h m agent st now a type = (ra, sta, callsA)"
    and storeB: "storeNewsItem h m' agent' st' now' b type' = (rb, stb, callsB)"
  shows "idBase a = idBase b
     \<and> (\<forall>ka kb. ra = Some ka \<and> rb = Some kb \<longrightarrow>
           item_id ka = item_id kb \<and> item_id ka = stringToUuid h (idBase a))
     \<and> (\<forall>ka kb. CreateKnowledge ka \<in> set callsA \<and> CreateKnowledge kb \<in> set callsB \<longrightarrow>
           item_id ka = item_id kb)"
  using sameArticle_idBase[OF same] storeNewsItem_id[OF storeA] storeNewsItem_id[OF storeB]
  by simp

theorem stored_id_deterministic_witness:
  "item_id (the (fst (storeNewsItem plainHost memoryStore ''agent1'' [] 100 candidate None))) =
   item_id (the (fst (storeNewsItem plainHost memoryStore ''agent2'' [olderArticle] 999
       (candidate\<lparr>ni_title := ''Changed title'', ni_publishedAt := Some (DateMs 77)\<rparr>) None)))
   \<and> item_id (the (fst (storeNewsItem plainHost memoryStore ''agent1'' [] 100 candidate None))) =
       ''https://example.org/new''
   \<and> item_id (the (fst (storeNewsItem plainHost memoryStore ''agent1'' [] 100
         (candidate\<lparr>ni_url := None\<rparr>) None))) = ''HELLO-example.org''"
proof -
  let ?b = "candidate\<lparr>ni_title := ''Changed title'', ni_publishedAt := Some (DateMs 77)\<rparr>"
  let ?ka = "knowledgeItemOf plainHost ''agent1'' 100 candidate None (DateMs 9)"
  let ?kb = "knowledgeItemOf plainHost ''agent2'' 999 ?b None (DateMs 77)"
  have same: "sameArticle candidate ?b"
    by (simp add: sameArticle_def candidate_def truthy_def)
  have A: "storeNewsItem plainHost memoryStore ''agent1'' [] 100 candidate None =
      (Some ?ka, [?ka], [CreateKnowledge ?ka])"
    by (simp add: storeNewsItem_def memoryStore_def candidate_def Let_def)
  have B: "storeNewsItem plainHost memoryStore ''agent2'' [olderArticle] 999 ?b None =
      (Some ?kb, [olderArticle, ?kb], [CreateKnowledge ?kb])"
    by (simp add: storeNewsItem_def memoryStore_def candidate_def Let_def)
  from stored_id_deterministic[OF same A B]
  have ids: "item_id ?ka = item_id ?kb \<and> item_id ?ka = stringToUuid plainHost (idBase candidate)"
    by blast
  have uuid: "stringToUuid plainHost (idBase candidate) = ''https://example.org/new''"
    by (simp add: plainHost_def idBase_def candidate_def)
  have 1: "item_id (the (fst (storeNewsItem plainHost memoryStore ''agent1'' [] 100 candidate None))) =
      item_id (the (fst (storeNewsItem plainHost memoryStore ''agent2'' [olderArticle] 999 ?b None)))"
    unfolding A B fst_conv option.sel using ids by blast
  have 2: "item_id (the (fst (storeNewsItem plainHost memoryStore ''agent1'' [] 100 candidate None))) =
      ''https://example.org/new''"
    unfolding A fst_conv option.sel using ids uuid by metis
  have 3: "item_id (the (fst (storeNewsItem plainHost memoryStore ''agent1'' [] 100
         (candidate\<lparr>ni_url := None\<rparr>) None))) = ''HELLO-example.org''"
    by (simp add: storeNewsItem_def memoryStore_def candidate_def Let_def knowledgeItemOf_def
        plainHost_def idBase_def)
  from 1 2 3 show ?thesis by blast
qed

subsection \<open>Retention purge\<close>

lemma removeEach_append:
  "removeEach m st (xs @ ys) c =
     (case removeEach m st xs c of
        (Inl e, st', calls) \<Rightarrow> (Inl e, st', calls)
      | (Inr n, st', calls) \<Rightarrow>
          (let (r, st'', calls') = removeEach m st' ys n in (r, st'', calls @ calls')))"
  by (induction xs arbitrary: st c) (auto split: sum.splits prod.splits)

lemma removeEach_ok:
  "removeEach m st items c = (Inr n, st', calls) \<Longrightarrow>
   n = c + int (length items) \<and> calls = removals items"
proof (induction items arbitrary: st c calls)
  case Nil
  then show ?case by (simp add: removals_def)
next
  case (Cons item rest)
  from Cons.prems obtain st1 where ok: "removeKnowledge m st (item_id item) = Inr st1"
    by (cases "removeKnowledge m st (item_id item)") auto
  obtain r st2 calls2 where rest: "removeEach m st1 rest (c + 1) = (r, st2, calls2)"
    by (cases "removeEach m st1 rest (c + 1)") blast
  with Cons.prems ok have "r = Inr n" "st2 = st'" "calls = RemoveKnowledge (item_id item) # calls2"
    by simp_all
  with rest Cons.IH[of st1 "c + 1" calls2] show ?case
    by (simp add: removals_def)
qed

lemma removeEach_total:
  "\<exists>r st' calls. removeEach m st items c = (r, st', calls)"
  by (cases "removeEach m st items c") blast

lemma expired_iff:
  "expired cutoffTime item \<longleftrightarrow>
     md_type (metadataOf item) = Some ''news''
     \<and> (case md_publishedAt (metadataOf item) of None \<Rightarrow> False | Some p \<Rightarrow> p < cutoffTime)"
  by (simp add: expired_def Let_def)

lemma purge_never_raises:
  "\<exists>n. fst (purgeOldNews m st now retentionDays) = Inr n"
  by (auto simp: purgeOldNews_def Let_def split: sum.splits prod.splits)


lemma service_purge_never_raises:
  "\<exists>n. fst (servicePurgeOldNews m st now configured) = Inr n"
  by (auto simp: servicePurgeOldNews_def Let_def split: sum.splits prod.splits)

lemma removedState_Cons:
  "removedState m st (item # items) =
     removedState m
       (case removeKnowledge m st (item_id item) of Inl e \<Rightarrow> st | Inr s' \<Rightarrow> s') items"
  by (simp add: removedState_def)

lemma deletionSucceeds_0:
  "deletionSucceeds m st (item # items) 0 \<longleftrightarrow> (\<exists>s'. removeKnowledge m st (item_id item) = Inr s')"
  by (cases "removeKnowledge m st (item_id item)")
     (simp_all add: deletionSucceeds_def removedState_def)

lemma deletionSucceeds_Suc:
  "removeKnowledge m st (item_id item) = Inr s' \<Longrightarrow>
   deletionSucceeds m st (item # items) (Suc k) = deletionSucceeds m s' items k"
  by (simp add: deletionSucceeds_def removedState_Cons)

text \<open>When every deletion succeeds the loop deletes every item and counts them all.\<close>

lemma removeEach_all_succeed:
  "\<forall>k < length items. deletionSucceeds m st items k \<Longrightarrow>
   removeEach m st items c =
     (Inr (c + int (length items)), removedState m st items, removals items)"
proof (induction items arbitrary: st c)
  case Nil
  then show ?case by (simp add: removedState_def removals_def)
next
  case (Cons item rest)
  from Cons.prems have "deletionSucceeds m st (item # rest) 0" by simp
  then obtain s' where ok: "removeKnowledge m st (item_id item) = Inr s'"
    by (auto simp: deletionSucceeds_0)
  have "\<forall>k < length rest. deletionSucceeds m s' rest k"
  proof (intro allI impI)
    fix k
    assume "k < length rest"
    then have "deletionSucceeds m st (item # rest) (Suc k)" using Cons.prems by simp
    then show "deletionSucceeds m s' rest k" by (simp add: deletionSucceeds_Suc[OF ok])
  qed
  from Cons.IH[OF this, of "c + 1"] ok show ?case
    by (simp add: removedState_Cons removals_def)
qed

text \<open>The first deletion that raises ends the loop with its error.\<close>

lemma removeEach_first_failure:
  "k < length items \<Longrightarrow> \<forall>j < k. deletionSucceeds m st items j \<Longrightarrow>
   \<not> deletionSucceeds m st items k \<Longrightarrow>
   \<exists>e. removeEach m st items c =
     (Inl e, removedState m st (take k items), removals (take (Suc k) items))"
proof (induction items arbitrary: st c k)
  case Nil
  then show ?case by simp
next
  case (Cons item rest)
  show ?case
  proof (cases k)
    case 0
    with Cons.prems obtain e where "removeKnowledge m st (item_id item) = Inl e"
      by (cases "removeKnowledge m st (item_id item)") (auto simp: deletionSucceeds_0)
    with 0 show ?thesis by (simp add: removedState_def removals_def)
  next
    case (Suc k')
    with Cons.prems have "deletionSucceeds m st (item # rest) 0" by simp
    then obtain s' where ok: "removeKnowledge m st (item_id item) = Inr s'"
      by (auto simp: deletionSucceeds_0)
    have before: "\<forall>j < k'. deletionSucceeds m s' rest j"
    proof (intro allI impI)
      fix j
      assume "j < k'"
      then have "deletionSucceeds m st (item # rest) (Suc j)" using Cons.prems Suc by simp
      then show "deletionSucceeds m s' rest j" by (simp add: deletionSucceeds_Suc[OF ok])
    qed
    from Cons.prems Suc have len: "k' < length rest" by simp
    from Cons.prems Suc have fails: "\<not> deletionSucceeds m s' rest k'"
      by (simp add: deletionSucceeds_Suc[OF ok])
    from Cons.IH[OF len before fails, of "c + 1"] obtain e where
      "removeEach m s' rest (c + 1) =
         (Inl e, removedState m s' (take k' rest), removals (take (Suc k') rest))"
      by blast
    with ok Suc show ?thesis
      by (simp add: removedState_Cons removals_def)
  qed
qed

lemma purge_all_succeed:
  assumes "getKnowledge m st purgeParams = Inr allItems"
    and "\<forall>k < length (filter (expired (now - retentionDays * 24 * 60 * 60 * 1000)) allItems).
           deletionSucceeds m st
             (filter (expired (now - retentionDays * 24 * 60 * 60 * 1000)) allItems) k"
  shows "purgeOldNews m st now retentionDays =
     (Inr (int (length (filter (expired (now - retentionDays * 24 * 60 * 60 * 1000)) allItems))),
      removedState m st (filter (expired (now - retentionDays * 24 * 60 * 60 * 1000)) allItems),
      GetKnowledge purgeParams
        # removals (filter (expired (now - retentionDays * 24 * 60 * 60 * 1000)) allItems))"
  using assms(1) removeEach_all_succeed[OF assms(2), of 0]
  by (simp add: purgeOldNews_def Let_def)

lemma purge_first_failure:
  assumes "getKnowledge m st purgeParams = Inr allItems"
    and "k < length (filter (expired (now - retentionDays * 24 * 60 * 60 * 1000)) allItems)"
    and "\<forall>j < k. deletionSucceeds m st
             (filter (expired (now - retentionDays * 24 * 60 * 60 * 1000)) allItems) j"
    and "\<not> deletionSucceeds m st
             (filter (expired (now - retentionDays * 24 * 60 * 60 * 1000)) allItems) k"
  shows "purgeOldNews m st now retentionDays =
     (Inr 0,
      removedState m st
        (take k (filter (expired (now - retentionDays * 24 * 60 * 60 * 1000)) allItems)),
      GetKnowledge purgeParams
        # removals
            (take (Suc k) (filter (expired (now - retentionDays * 24 * 60 * 60 * 1000)) allItems)))"
proof -
  from removeEach_first_failure[OF assms(2,3,4), of 0] obtain e where
    "removeEach m st (filter (expired (now - retentionDays * 24 * 60 * 60 * 1000)) allItems) 0 =
       (Inl e,
        removedState m st
          (take k (filter (expired (now - retentionDays * 24 * 60 * 60 * 1000)) allItems)),
        removals
          (take (Suc k) (filter (expired (now - retentionDays * 24 * 60 * 60 * 1000)) allItems)))"
    by blast
  with assms(1) show ?thesis
    by (simp add: purgeOldNews_def Let_def)
qed

lemma purge_success:
  assumes "getKnowledge m st purgeParams = Inr allItems"
    and "removeEach m st (filter (expired (now - retentionDays * 24 * 60 * 60 * 1000)) allItems) 0 =
           (Inr n, st', calls)"
  shows "purgeOldNews m st now retentionDays =
     (Inr (int (length (filter (expired (now - retentionDays * 24 * 60 * 60 * 1000)) allItems))),
      st',
      GetKnowledge purgeParams
        # removals (filter (expired (now - retentionDays * 24 * 60 * 60 * 1000)) allItems))"
  using assms removeEach_ok[OF assms(2)]
  by (simp add: purgeOldNews_def Let_def)

lemma purge_failure:
  assumes "getKnowledge m st purgeParams = Inr allItems"
    and "filter (expired (now - retentionDays * 24 * 60 * 60 * 1000)) allItems = deleted @ item # rest"
    and "removeEach m st deleted 0 = (Inr n, st', calls)"
    and "removeKnowledge m st' (item_id item) = Inl e"
  shows "purgeOldNews m st now retentionDays =
     (Inr 0, st', GetKnowledge purgeParams # removals deleted @ [RemoveKnowledge (item_id item)])"
proof -
  from removeEach_ok[OF assms(3)] have "calls = removals deleted" by simp
  with assms(3,4) have "removeEach m st (deleted @ item # rest) 0 =
      (Inl e, st', removals deleted @ [RemoveKnowledge (item_id item)])"
    by (simp add: removeEach_append)
  with assms(1,2) show ?thesis
    by (simp add: purgeOldNews_def Let_def)
qed

text \<open>
  Claim C8, as amended. The purge asks the store for at most 1000 entries and selects
  exactly those whose type is news and whose numeric \<open>publishedAt\<close> is strictly below
  now minus \<open>retentionDays\<close> days (an entry at the cutoff is kept). It deletes them one
  by one in order. When every deletion succeeds, each in the store the deletions before
  it leave, the purge deletes all of them and returns their number. The first deletion
  that raises ends the loop: the entries before it are deleted, the remaining ones are
  not attempted, nothing is retried, and the purge returns 0 to its caller, whatever it
  had deleted before. No error leaves the purge, nor the service method that calls it.
\<close>

theorem purge_selects_counts_and_swallows:
  assumes listed: "getKnowledge m st purgeParams = Inr allItems"
    and cutoff: "cutoffTime = now - retentionDays * 24 * 60 * 60 * 1000"
    and sel: "expiredItems = filter (expired cutoffTime) allItems"
  shows
    "gk_limit purgeParams = 1000
     \<and> (\<forall>item. expired cutoffTime item \<longleftrightarrow>
           md_type (metadataOf item) = Some ''news''
           \<and> (case md_publishedAt (metadataOf item) of None \<Rightarrow> False | Some p \<Rightarrow> p < cutoffTime))
     \<and> (\<forall>item. md_publishedAt (metadataOf item) = Some cutoffTime \<longrightarrow> \<not> expired cutoffTime item)
     \<and> ((\<forall>k < length expiredItems. deletionSucceeds m st expiredItems k) \<longrightarrow>
           purgeOldNews m st now retentionDays =
             (Inr (int (length expiredItems)), removedState m st expiredItems,
              GetKnowledge purgeParams # removals expiredItems))
     \<and> (\<forall>k. k < length expiredItems
           \<and> (\<forall>j < k. deletionSucceeds m st expiredItems j)
           \<and> \<not> deletionSucceeds m st expiredItems k \<longrightarrow>
           purgeOldNews m st now retentionDays =
             (Inr 0, removedState m st (take k expiredItems),
              GetKnowledge purgeParams # removals (take (Suc k) expiredItems)))
     \<and> (\<forall>n st' calls. removeEach m st expiredItems 0 = (Inr n, st', calls) \<longrightarrow>
           purgeOldNews m st now retentionDays =
             (Inr (int (length expiredItems)), st',
              GetKnowledge purgeParams # removals expiredItems))
     \<and> (\<forall>deleted item rest n st' calls e.
           expiredItems = deleted @ item # rest
           \<and> removeEach m st deleted 0 = (Inr n, st', calls)
           \<and> removeKnowledge m st' (item_id item) = Inl e \<longrightarrow>
           purgeOldNews m st now retentionDays =
             (Inr 0, st',
              GetKnowledge purgeParams # removals deleted @ [RemoveKnowledge (item_id item)]))
     \<and> (\<exists>n. fst (purgeOldNews m st now retentionDays) = Inr n)
     \<and> (\<exists>n. fst (servicePurgeOldNews m st now retentionDays) = Inr n)"
proof (intro conjI allI impI)
  show "gk_limit purgeParams = 1000" by (simp add: purgeParams_def)
next
  fix item
  show "expired cutoffTime item \<longleftrightarrow>
           md_type (metadataOf item) = Some ''news''
           \<and> (case md_publishedAt (metadataOf item) of None \<Rightarrow> False | Some p \<Rightarrow> p < cutoffTime)"
    by (rule expired_iff)
next
  fix item
  assume "md_publishedAt (metadataOf item) = Some cutoffTime"
  then show "\<not> expired cutoffTime item" by (simp add: expired_iff)
next
  assume "\<forall>k < length expiredItems. deletionSucceeds m st expiredItems k"
  then show "purgeOldNews m st now retentionDays =
             (Inr (int (length expiredItems)), removedState m st expiredItems,
              GetKnowledge purgeParams # removals expiredItems)"
    unfolding sel cutoff by (rule purge_all_succeed[OF listed])
next
  fix k
  assume a: "k < length expiredItems
           \<and> (\<forall>j < k. deletionSucceeds m st expiredItems j)
           \<and> \<not> deletionSucceeds m st expiredItems k"
  show "purgeOldNews m st now retentionDays =
             (Inr 0, removedState m st (take k expiredItems),
              GetKnowledge purgeParams # removals (take (Suc k) expiredItems))"
    unfolding sel cutoff
  proof (rule purge_first_failure[OF listed])
    from a show "k < length (filter (expired (now - retentionDays * 24 * 60 * 60 * 1000)) allItems)"
      by (simp add: sel cutoff)
    from a show "\<forall>j < k. deletionSucceeds m st
        (filter (expired (now - retentionDays * 24 * 60 * 60 * 1000)) allItems) j"
      by (simp add: sel cutoff)
    from a show "\<not> deletionSucceeds m st
        (filter (expired (now - retentionDays * 24 * 60 * 60 * 1000)) allItems) k"
      by (simp add: sel cutoff)
  qed
next
  fix n st' calls
  assume "removeEach m st expiredItems 0 = (Inr n, st', calls)"
  then show "purgeOldNews m st now retentionDays =
             (Inr (int (length expiredItems)), st',
              GetKnowledge purgeParams # removals expiredItems)"
    unfolding sel cutoff by (rule purge_success[OF listed])
next
  fix deleted item rest n st' calls e
  assume a: "expiredItems = deleted @ item # rest
           \<and> removeEach m st deleted 0 = (Inr n, st', calls)
           \<and> removeKnowledge m st' (item_id item) = Inl e"
  show "purgeOldNews m st now retentionDays =
             (Inr 0, st',
              GetKnowledge purgeParams # removals deleted @ [RemoveKnowledge (item_id item)])"
  proof (rule purge_failure[OF listed])
    from a show "filter (expired (now - retentionDays * 24 * 60 * 60 * 1000)) allItems =
        deleted @ item # rest"
      by (simp add: sel cutoff)
    from a show "removeEach m st deleted 0 = (Inr n, st', calls)" by simp
    from a show "removeKnowledge m st' (item_id item) = Inl e" by simp
  qed
next
  show "\<exists>n. fst (purgeOldNews m st now retentionDays) = Inr n"
    by (rule purge_never_raises)
next
  show "\<exists>n. fst (servicePurgeOldNews m st now retentionDays) = Inr n"
    by (rule service_purge_never_raises)
qed

lemmas purge_eval = purgeOldNews_def purgeParams_def expired_def metadataOf_def memoryStore_def
  removeFailsOn_def olderArticle_def newerArticle_def thirdArticle_def undatedArticle_def
  article_def Let_def

text \<open>
  Claim C8 as stated fails in its last clause: the second deletion raises, and the
  caller receives the count 0, not the error, although one entry was deleted.
\<close>

theorem purge_error_counterexample:
  "removeKnowledge (removeFailsOn ''b'') [newerArticle, thirdArticle] ''b'' = Inl AdapterError
   \<and> purgeOldNews (removeFailsOn ''b'') [olderArticle, newerArticle, thirdArticle]
        (100 * dayMs) 30 =
       (Inr 0, [newerArticle, thirdArticle],
        [GetKnowledge purgeParams, RemoveKnowledge ''a'', RemoveKnowledge ''b''])"
  by (simp add: purge_eval dayMs_def)


theorem purge_selects_counts_and_swallows_witness:
  "purgeOldNews memoryStore [olderArticle, thirdArticle, newerArticle, undatedArticle]
       (30 * dayMs + 7) 30 =
     (Inr 2, [newerArticle, undatedArticle],
      [GetKnowledge purgeParams, RemoveKnowledge ''a'', RemoveKnowledge ''c''])
   \<and> \<not> expired 7 newerArticle
   \<and> purgeOldNews (removeFailsOn ''b'') [olderArticle, newerArticle, thirdArticle]
        (100 * dayMs) 30 =
       (Inr 0, [newerArticle, thirdArticle],
        [GetKnowledge purgeParams, RemoveKnowledge ''a'', RemoveKnowledge ''b''])"
proof -
  note items = olderArticle_def newerArticle_def thirdArticle_def undatedArticle_def article_def
  let ?st = "[olderArticle, thirdArticle, newerArticle, undatedArticle]"
  have listed: "getKnowledge memoryStore ?st purgeParams = Inr ?st"
    by (simp add: memoryStore_def purgeParams_def)
  have cutoff: "(7::int) = (30 * dayMs + 7) - 30 * 24 * 60 * 60 * 1000"
    by (simp add: dayMs_def)
  have sel: "[olderArticle, thirdArticle] = filter (expired 7) ?st"
    by (simp add: expired_def metadataOf_def items)
  note ok = purge_selects_counts_and_swallows[OF listed cutoff sel]
  have all: "\<forall>k < length [olderArticle, thirdArticle].
      deletionSucceeds memoryStore ?st [olderArticle, thirdArticle] k"
    by (simp add: deletionSucceeds_def memoryStore_def)
  have after: "removedState memoryStore ?st [olderArticle, thirdArticle] =
      [newerArticle, undatedArticle]"
    by (simp add: removedState_def memoryStore_def items)
  from ok all have "purgeOldNews memoryStore ?st (30 * dayMs + 7) 30 =
      (Inr (int (length [olderArticle, thirdArticle])),
       removedState memoryStore ?st [olderArticle, thirdArticle],
       GetKnowledge purgeParams # removals [olderArticle, thirdArticle])"
    by blast
  then have 1: "purgeOldNews memoryStore ?st (30 * dayMs + 7) 30 =
     (Inr 2, [newerArticle, undatedArticle],
      [GetKnowledge purgeParams, RemoveKnowledge ''a'', RemoveKnowledge ''c''])"
    unfolding after by (simp add: removals_def items)
  have "md_publishedAt (metadataOf newerArticle) = Some 7"
    by (simp add: metadataOf_def items)
  with ok have 2: "\<not> expired 7 newerArticle" by blast
  let ?st2 = "[olderArticle, newerArticle, thirdArticle]"
  have listed2: "getKnowledge (removeFailsOn ''b'') ?st2 purgeParams = Inr ?st2"
    by (simp add: removeFailsOn_def memoryStore_def purgeParams_def)
  have cutoff2: "70 * dayMs = 100 * dayMs - 30 * 24 * 60 * 60 * 1000"
    by (simp add: dayMs_def)
  have sel2: "?st2 = filter (expired (70 * dayMs)) ?st2"
    by (simp add: expired_def metadataOf_def items dayMs_def)
  note fail = purge_selects_counts_and_swallows[OF listed2 cutoff2 sel2]
  have first: "deletionSucceeds (removeFailsOn ''b'') ?st2 ?st2 0"
    by (simp add: deletionSucceeds_def removedState_def removeFailsOn_def memoryStore_def items)
  have before: "\<forall>j < (1::nat). deletionSucceeds (removeFailsOn ''b'') ?st2 ?st2 j"
    using first by simp
  have second: "\<not> deletionSucceeds (removeFailsOn ''b'') ?st2 ?st2 1"
    by (simp add: deletionSucceeds_def removedState_def removeFailsOn_def memoryStore_def items)
  have "(1::nat) < length ?st2" by simp
  with fail before second
  have "purgeOldNews (removeFailsOn ''b'') ?st2 (100 * dayMs) 30 =
      (Inr 0, removedState (removeFailsOn ''b'') ?st2 (take 1 ?st2),
       GetKnowledge purgeParams # removals (take (Suc 1) ?st2))"
    by blast
  moreover have "removedState (removeFailsOn ''b'') ?st2 (take 1 ?st2) =
      [newerArticle, thirdArticle]"
    by (simp add: removedState_def removeFailsOn_def memoryStore_def items)
  ultimately have 3: "purgeOldNews (removeFailsOn ''b'') ?st2 (100 * dayMs) 30 =
       (Inr 0, [newerArticle, thirdArticle],
        [GetKnowledge purgeParams, RemoveKnowledge ''a'', RemoveKnowledge ''b''])"
    by (simp add: removals_def items)
  from 1 2 3 show ?thesis by blast
qed

subsection \<open>Ingestion\<close>

lemma extractedDateOf_None_iff:
  "extractedDateOf h d now result = None \<longleftrightarrow>
     \<not> truthy (sr_publishedDate result) \<and> \<not> truthy (sr_rawContent result)"
  by (auto simp: extractedDateOf_def split: sum.splits option.splits)

lemma storeNewsItem_null_date:
  "ni_publishedAt newsItem = None \<Longrightarrow> storeNewsItem h m agent st now newsItem type = (None, st, [])"
  by (simp add: storeNewsItem_def)

lemma storeNewsItem_persisted_dated:
  "storeNewsItem h m agent st now newsItem type = (Some item, st', calls) \<Longrightarrow>
   ni_publishedAt newsItem \<noteq> None"
  by (cases "ni_publishedAt newsItem") (auto simp: storeNewsItem_def)

text \<open>
  Claim C4 against the code. The ingestion leaves the publication date of a result
  \<^verbatim>\<open>null\<close> exactly when the provider gives neither a published date nor raw content:
  the heuristic is then run on no text at all and the current time is not substituted.
  Storing an item whose date is \<^verbatim>\<open>null\<close> fails before any call to the store, so the
  article is dropped: a fetch whose provider returns one such result, with a title, a
  content that names a date and a url, stores nothing and returns the empty list.
\<close>

theorem undated_result_without_raw_content_is_dropped:
  "(extractedDateOf h d now result = None \<longleftrightarrow>
      \<not> truthy (sr_publishedDate result) \<and> \<not> truthy (sr_rawContent result))
   \<and> (ni_publishedAt newsItem = None \<longrightarrow>
        storeNewsItem h m agent st now newsItem type = (None, st, []))
   \<and> fetchNewsForTopic plainHost d memoryStore (\<lambda>q. Inr (Some [undatedResult])) ''agent'' now []
        ''technology'' =
      (Inr [], [],
       [GetKnowledge urlLookup,
        GetKnowledge \<lparr>gk_query = Some ''Launch day'', gk_limit = 5,
          gk_conversationContext = None\<rparr>])"
proof (intro conjI impI)
  show "extractedDateOf h d now result = None \<longleftrightarrow>
      \<not> truthy (sr_publishedDate result) \<and> \<not> truthy (sr_rawContent result)"
    by (rule extractedDateOf_None_iff)
  show "storeNewsItem h m agent st now newsItem type = (None, st, [])"
    if "ni_publishedAt newsItem = None"
    using that by (rule storeNewsItem_null_date)
  show "fetchNewsForTopic plainHost d memoryStore (\<lambda>q. Inr (Some [undatedResult])) ''agent'' now []
        ''technology'' =
      (Inr [], [],
       [GetKnowledge urlLookup,
        GetKnowledge \<lparr>gk_query = Some ''Launch day'', gk_limit = 5,
          gk_conversationContext = None\<rparr>])"
    by (simp add: fetchNewsForTopic_def undatedResult_def extractedDateOf_def sourceOf_def
        truthy_def plainHost_def checkForDuplicate_def searchNewsByMetadata_def
        checkByTitle_def titleParams_def memoryStore_def slice0_def storeNewsItem_def
        urlLookup_def Let_def)
qed


theorem undated_result_without_raw_content_is_dropped_witness:
  "(\<forall>d. extractedDateOf plainHost d 5 undatedResult = None)
   \<and> storeNewsItem plainHost memoryStore ''agent'' [] 5 (candidate\<lparr>ni_publishedAt := None\<rparr>) None =
       (None, [], [])"
proof -
  have a: "\<not> truthy (sr_publishedDate undatedResult) \<and> \<not> truthy (sr_rawContent undatedResult)"
    by (simp add: undatedResult_def truthy_def)
  have b: "ni_publishedAt (candidate\<lparr>ni_publishedAt := None\<rparr>) = None" by simp
  have 1: "extractedDateOf plainHost d 5 undatedResult = None" for d
    by (rule undated_result_without_raw_content_is_dropped[THEN conjunct1, THEN iffD2, OF a])
  have 2: "storeNewsItem plainHost memoryStore ''agent'' [] 5
      (candidate\<lparr>ni_publishedAt := None\<rparr>) None = (None, [], [])"
    by (rule undated_result_without_raw_content_is_dropped[THEN conjunct2, THEN conjunct1,
          THEN mp, OF b])
  from 1 2 show ?thesis by blast
qed

subsection \<open>The scheduler\<close>

lemma fold_clear_timers:
  "timers (fold (\<lambda>entry s'. clearInterval (snd entry) s') xs s) =
     filter (\<lambda>t. tm_id t \<notin> snd ` set xs) (timers s)"
proof (induction xs arbitrary: s)
  case Nil
  then show ?case by simp
next
  case (Cons x xs)
  let ?f = "\<lambda>entry s'. clearInterval (snd entry) s'"
  have "timers (fold ?f (x # xs) s) = timers (fold ?f xs (clearInterval (snd x) s))"
    by simp
  also have "\<dots> = filter (\<lambda>t. tm_id t \<notin> snd ` set xs) (timers (clearInterval (snd x) s))"
    by (rule Cons.IH)
  also have "\<dots> = filter (\<lambda>t. tm_id t \<notin> snd ` set (x # xs)) (timers s)"
    by (auto simp: clearInterval_def intro: filter_cong)
  finally show ?case .
qed

lemma timers_stop:
  "timers (stop s) = filter (\<lambda>t. tm_id t \<notin> snd ` set (fetchIntervals s)) (timers s)"
  by (simp add: stop_def stopFetchIntervals_def fold_clear_timers)

lemma stop_idempotent: "stop (stop s) = stop s"
  by (simp add: stop_def stopFetchIntervals_def)

lemma idsBelow_step:
  assumes "idsBelow s"
  shows "idsBelow (scheduleTopic topic s)"
proof -
  have "set (AList.update name i al) \<subseteq> insert (name, i) (set al)"
    for name i and al :: "(string \<times> nat) list"
    by (induction al) auto
  with assms show ?thesis
    by (fastforce simp: idsBelow_def scheduleTopic_def setInterval_def list_all_iff)
qed

lemma idsBelow_fold: "idsBelow s \<Longrightarrow> idsBelow (fold scheduleTopic ts s)"
  by (induction ts arbitrary: s) (simp_all add: idsBelow_step)

lemma idsBelow_start: "idsBelow (startFetchIntervals s)"
proof -
  have "idsBelow (stopFetchIntervals s)"
    by (simp add: idsBelow_def stopFetchIntervals_def)
  then show ?thesis
    unfolding startFetchIntervals_def by (rule idsBelow_fold)
qed

text \<open>
  Claim C9 against the code. After \<open>initialize\<close> and \<open>stop\<close>, for every configured
  list of topics and every interval, the runtime still holds the daily timer that fires
  the retention purge: \<open>stop\<close> cancels only the timers remembered in
  \<^verbatim>\<open>fetchIntervals\<close>. With the default topics the purge timer is the only one left; with
  a topic configured twice the first of its two fetch timers is left as well. Stopping a
  stopped service changes nothing.
\<close>

theorem purge_timer_survives_stop:
  "(\<exists>t \<in> set (timers (stop (initialize newsTopics fetchInterval newService))).
      tm_task t = PurgeOldNews \<and> tm_ms t = 24 * 60 * 60 * 1000)
   \<and> stop (stop s) = stop s
   \<and> timers (stop (initialize [] 0 newService)) =
       [\<lparr>tm_id = 3, tm_task = PurgeOldNews, tm_ms = 86400000\<rparr>]
   \<and> timers (stop (initialize [''ai'', ''ai''] 60 newService)) =
       [\<lparr>tm_id = 0, tm_task = FetchTopic ''ai'', tm_ms = 3600000\<rparr>,
        \<lparr>tm_id = 2, tm_task = PurgeOldNews, tm_ms = 86400000\<rparr>]"
proof (intro conjI)
  let ?s1 = "startFetchIntervals (initializeTopics newsTopics fetchInterval newService)"
  let ?p = "\<lparr>tm_id = nextTimerId ?s1, tm_task = PurgeOldNews, tm_ms = 24 * 60 * 60 * 1000\<rparr>"
  have init: "initialize newsTopics fetchInterval newService =
      (scheduleNewsCleanup ?s1)\<lparr>initialized := True\<rparr>"
    by (simp add: initialize_def newService_def)
  have tms: "timers (initialize newsTopics fetchInterval newService) = timers ?s1 @ [?p]"
    by (simp add: init scheduleNewsCleanup_def setInterval_def)
  have fis: "fetchIntervals (initialize newsTopics fetchInterval newService) = fetchIntervals ?s1"
    by (simp add: init scheduleNewsCleanup_def setInterval_def)
  have "idsBelow ?s1" by (rule idsBelow_start)
  then have "nextTimerId ?s1 \<notin> snd ` set (fetchIntervals ?s1)"
    by (fastforce simp: idsBelow_def list_all_iff)
  then have "?p \<in> set (timers (stop (initialize newsTopics fetchInterval newService)))"
    by (simp add: timers_stop tms fis)
  then show "\<exists>t \<in> set (timers (stop (initialize newsTopics fetchInterval newService))).
      tm_task t = PurgeOldNews \<and> tm_ms t = 24 * 60 * 60 * 1000"
    by (intro bexI[of _ ?p]) simp_all
next
  show "stop (stop s) = stop s" by (rule stop_idempotent)
next
  show "timers (stop (initialize [] 0 newService)) =
       [\<lparr>tm_id = 3, tm_task = PurgeOldNews, tm_ms = 86400000\<rparr>]"
    by (simp add: stop_def stopFetchIntervals_def initialize_def newService_def
        scheduleNewsCleanup_def startFetchIntervals_def scheduleTopic_def initializeTopics_def
        setInterval_def clearInterval_def DEFAULT_TOPICS_def DEFAULT_FETCH_INTERVAL_def Let_def)
next
  show "timers (stop (initialize [''ai'', ''ai''] 60 newService)) =
       [\<lparr>tm_id = 0, tm_task = FetchTopic ''ai'', tm_ms = 3600000\<rparr>,
        \<lparr>tm_id = 2, tm_task = PurgeOldNews, tm_ms = 86400000\<rparr>]"
    by (simp add: stop_def stopFetchIntervals_def initialize_def newService_def
        scheduleNewsCleanup_def startFetchIntervals_def scheduleTopic_def initializeTopics_def
        setInterval_def clearInterval_def Let_def)
qed


theorem purge_timer_survives_stop_witness:
  "\<exists>t \<in> set (timers (stop (initialize [''technology''] 60 newService))).
      tm_task t = PurgeOldNews \<and> tm_ms t = 24 * 60 * 60 * 1000"
  using purge_timer_survives_stop[of "[''technology'']" 60 newService] by blast

end
